theory Spec2Isabelle
  imports Complex_Main "HOL-Library.Sublist"
begin

section \<open>Python values, exceptions and the external command\<close>

text \<open>
  The two scripts of the repository, \<^verbatim>\<open>scripts/setup_projects.py\<close> and
  \<^verbatim>\<open>scripts/configure_required_checks.py\<close>, drive the \<^verbatim>\<open>gh\<close> command-line client
  through \<^verbatim>\<open>subprocess.run\<close> and decode its output with \<^verbatim>\<open>json.loads\<close>.
  Strings are byte strings here: the only non-ASCII text the scripts handle themselves are the
  two marks printed by \<^verbatim>\<open>main\<close>, written as their UTF-8 bytes.
\<close>

text \<open>What \<^verbatim>\<open>json.loads\<close> returns: \<^verbatim>\<open>None\<close>, a bool, an int, a float, a str, a list or a
  dict (an association list, looked up with \<^const>\<open>map_of\<close>).\<close>

datatype json =
    JNull
  | JBool bool
  | JInt int
  | JFloat real
  | JStr string
  | JArr "json list"
  | JObj "(string \<times> json) list"

text \<open>The exceptions the scripts can meet. \<open>CalledProcessError cmd returncode stderr\<close> is what
  \<^verbatim>\<open>subprocess.run(..., check=True)\<close> raises on a non-zero exit status; \<open>OSError\<close> is what it
  raises when the command cannot be started at all. All of them derive from \<^verbatim>\<open>Exception\<close>.\<close>

datatype py_exception =
    CalledProcessError "string list" int string
  | OSError string
  | JSONDecodeError string
  | KeyError string
  | IndexError
  | TypeError
  | AttributeError

text \<open>Python's class \<^verbatim>\<open>LookupError\<close> has exactly the subclasses \<^verbatim>\<open>KeyError\<close> and
  \<^verbatim>\<open>IndexError\<close> among these.\<close>

fun is_LookupError :: "py_exception \<Rightarrow> bool" where
  "is_LookupError (KeyError k) = True"
| "is_LookupError IndexError = True"
| "is_LookupError e = False"

text \<open>One run of the external command: it exits with a return code, its captured standard
  output and its captured standard error, or it could not be started.\<close>

datatype proc_outcome =
    Exited int string string
  | SpawnFailed string

text \<open>The collaborators that are not code of the repository: the external command acting on
  the outside world \<open>'w\<close>, \<^verbatim>\<open>json.loads\<close> (\<open>None\<close> when it raises \<^verbatim>\<open>JSONDecodeError\<close>),
  \<^verbatim>\<open>str\<close> of an exception, and \<^verbatim>\<open>str\<close> of a decoded value that is not itself a string.\<close>

record 'w env =
  run :: "string list \<Rightarrow> 'w \<Rightarrow> proc_outcome \<times> 'w"
  loads :: "string \<Rightarrow> json option"
  str_exc :: "py_exception \<Rightarrow> string"
  str_value :: "json \<Rightarrow> string"

text \<open>The state a script threads: the outside world, the commands issued so far (oldest
  first) and everything written to standard output.\<close>

record 'w state =
  world :: 'w
  calls :: "string list list"
  out :: string

definition nl :: string where
  "nl = [CHR 0x0A]"

text \<open>\<^verbatim>\<open>print(text, end=e)\<close>; the default \<open>e\<close> is \<^const>\<open>nl\<close>.\<close>

definition print :: "'w state \<Rightarrow> string \<Rightarrow> string \<Rightarrow> 'w state" where
  "print st text e = st\<lparr>out := out st @ text @ e\<rparr>"

text \<open>\<^verbatim>\<open>subprocess.run(cmd, capture_output=True, text=True, check=True)\<close>, of which the callers
  read \<^verbatim>\<open>result.stdout\<close> only.\<close>

definition subprocess_run ::
  "'w env \<Rightarrow> string list \<Rightarrow> 'w state \<Rightarrow> (py_exception + string) \<times> 'w state" where
  "subprocess_run env cmd st =
     (case run env cmd (world st) of (oc, w') \<Rightarrow>
        let st' = st\<lparr>world := w', calls := calls st @ [cmd]\<rparr> in
        (case oc of
           SpawnFailed msg \<Rightarrow> (Inl (OSError msg), st')
         | Exited returncode stdout stderr \<Rightarrow>
             if returncode \<noteq> 0 then (Inl (CalledProcessError cmd returncode stderr), st')
             else (Inr stdout, st')))"

definition json_loads :: "'w env \<Rightarrow> string \<Rightarrow> py_exception + json" where
  "json_loads env s = (case loads env s of None \<Rightarrow> Inl (JSONDecodeError s) | Some v \<Rightarrow> Inr v)"

text \<open>\<^verbatim>\<open>v[key]\<close> with a string key: only a dict can be subscripted so.\<close>

fun subscript :: "json \<Rightarrow> string \<Rightarrow> py_exception + json" where
  "subscript (JObj kvs) key = (case map_of kvs key of None \<Rightarrow> Inl (KeyError key) | Some v \<Rightarrow> Inr v)"
| "subscript v key = Inl TypeError"

text \<open>\<^verbatim>\<open>v.get(key, default)\<close>: only a dict has the method.\<close>

fun dict_get :: "json \<Rightarrow> string \<Rightarrow> json \<Rightarrow> py_exception + json" where
  "dict_get (JObj kvs) key dflt = (case map_of kvs key of None \<Rightarrow> Inr dflt | Some v \<Rightarrow> Inr v)"
| "dict_get v key dflt = Inl AttributeError"

text \<open>Truth value of a decoded value, as \<^verbatim>\<open>if v:\<close>, \<^verbatim>\<open>not v\<close> and \<^verbatim>\<open>v or d\<close> test it.\<close>

fun truthy :: "json \<Rightarrow> bool" where
  "truthy JNull = False"
| "truthy (JBool b) = b"
| "truthy (JInt i) = (i \<noteq> 0)"
| "truthy (JFloat x) = (x \<noteq> 0)"
| "truthy (JStr s) = (s \<noteq> [])"
| "truthy (JArr xs) = (xs \<noteq> [])"
| "truthy (JObj kvs) = (kvs \<noteq> [])"

text \<open>A value inside an f-string: a string is inserted as it is.\<close>

definition format_value :: "'w env \<Rightarrow> json \<Rightarrow> string" where
  "format_value env v = (case v of JStr s \<Rightarrow> s | _ \<Rightarrow> str_value env v)"

subsection \<open>Strings\<close>

fun starts_with :: "string \<Rightarrow> string \<Rightarrow> bool" where
  "starts_with [] s = True"
| "starts_with (p # ps) [] = False"
| "starts_with (p # ps) (c # cs) = (p = c \<and> starts_with ps cs)"

text \<open>\<^verbatim>\<open>needle in haystack\<close> on two strings.\<close>

fun str_contains :: "string \<Rightarrow> string \<Rightarrow> bool" where
  "str_contains needle [] = (needle = [])"
| "str_contains needle (c # cs) = (starts_with needle (c # cs) \<or> str_contains needle cs)"

text \<open>\<^verbatim>\<open>needle in v\<close> for a string needle and a decoded value: substring for a string,
  membership for a list, key membership for a dict, \<^verbatim>\<open>TypeError\<close> otherwise.\<close>

fun py_in :: "string \<Rightarrow> json \<Rightarrow> py_exception + bool" where
  "py_in needle (JStr s) = Inr (str_contains needle s)"
| "py_in needle (JArr xs) = Inr (JStr needle \<in> set xs)"
| "py_in needle (JObj kvs) = Inr (needle \<in> fst ` set kvs)"
| "py_in needle v = Inl TypeError"

text \<open>\<^verbatim>\<open>str.lower\<close> on the ASCII letters; other bytes are kept.\<close>

definition lower_char :: "char \<Rightarrow> char" where
  "lower_char c =
     (if of_char c \<ge> (65::nat) \<and> of_char c \<le> (90::nat) then char_of (of_char c + (32::nat)) else c)"

definition lower :: "string \<Rightarrow> string" where
  "lower s = map lower_char s"

definition digit_char :: "nat \<Rightarrow> char" where
  "digit_char d = ''0123456789'' ! d"

function str_nat :: "nat \<Rightarrow> string" where
  "str_nat n = (if n < 10 then [digit_char n] else str_nat (n div 10) @ [digit_char (n mod 10)])"
  by pat_completeness auto
termination
  by (relation "measure id") auto

declare str_nat.simps [simp del]

text \<open>\<^verbatim>\<open>str(i)\<close> of an int.\<close>

definition str_int :: "int \<Rightarrow> string" where
  "str_int i = (if i < 0 then CHR ''-'' # str_nat (nat (- i)) else str_nat (nat i))"

section \<open>\<^verbatim>\<open>scripts/setup_projects.py\<close>\<close>

subsection \<open>The external operations\<close>

definition issue_query :: "int \<Rightarrow> string" where
  \<open>issue_query issue_num =
     nl @ ''    {'' @ nl @
     ''      repository(owner: "RdHamilton", name: "MTGA-Companion") {'' @ nl @
     ''        issue(number: '' @ str_int issue_num @ '') {'' @ nl @
     ''          id'' @ nl @
     ''        }'' @ nl @
     ''      }'' @ nl @
     ''    }'' @ nl @
     ''    ''\<close>

definition lookup_cmd :: "int \<Rightarrow> string list" where
  "lookup_cmd issue_num = [''gh'', ''api'', ''graphql'', ''-f'', ''query='' @ issue_query issue_num]"

definition get_issue_node_id ::
  "'w env \<Rightarrow> int \<Rightarrow> 'w state \<Rightarrow> (py_exception + json) \<times> 'w state" where
  "get_issue_node_id env issue_num st =
     (case subprocess_run env (lookup_cmd issue_num) st of
        (Inl e, st') \<Rightarrow> (Inl e, st')
      | (Inr stdout, st') \<Rightarrow>
          (case json_loads env stdout of
             Inl e \<Rightarrow> (Inl e, st')
           | Inr data \<Rightarrow>
               (case subscript data ''data'' of
                  Inl e \<Rightarrow> (Inl e, st')
                | Inr d1 \<Rightarrow>
                    (case subscript d1 ''repository'' of
                       Inl e \<Rightarrow> (Inl e, st')
                     | Inr d2 \<Rightarrow>
                         (case subscript d2 ''issue'' of
                            Inl e \<Rightarrow> (Inl e, st')
                          | Inr d3 \<Rightarrow> (subscript d3 ''id'', st'))))))"

definition add_mutation :: "string \<Rightarrow> string \<Rightarrow> string" where
  \<open>add_mutation project_id issue_node_id =
     nl @ ''    mutation {'' @ nl @
     ''      addProjectV2ItemById(input: {'' @ nl @
     ''        projectId: "'' @ project_id @ ''"'' @ nl @
     ''        contentId: "'' @ issue_node_id @ ''"'' @ nl @
     ''      }) {'' @ nl @
     ''        item {'' @ nl @
     ''          id'' @ nl @
     ''        }'' @ nl @
     ''      }'' @ nl @
     ''    }'' @ nl @
     ''    ''\<close>

definition add_cmd :: "string \<Rightarrow> string \<Rightarrow> string list" where
  "add_cmd project_id issue_node_id =
     [''gh'', ''api'', ''graphql'', ''-f'', ''query='' @ add_mutation project_id issue_node_id]"

text \<open>The id of the new project item, or \<^verbatim>\<open>None\<close> when the command failed and its standard
  error says the item is there already; every other failure is raised again.\<close>

definition add_issue_to_project ::
  "'w env \<Rightarrow> string \<Rightarrow> json \<Rightarrow> 'w state \<Rightarrow> (py_exception + json) \<times> 'w state" where
  "add_issue_to_project env project_id issue_node_id st =
     (case subprocess_run env (add_cmd project_id (format_value env issue_node_id)) st of
        (Inl (CalledProcessError cmd returncode stderr), st') \<Rightarrow>
          if str_contains ''already exists'' (lower stderr) \<or> str_contains ''already added'' (lower stderr)
          then (Inr JNull, st')
          else (Inl (CalledProcessError cmd returncode stderr), st')
      | (Inl e, st') \<Rightarrow> (Inl e, st')
      | (Inr stdout, st') \<Rightarrow>
          (case json_loads env stdout of
             Inl e \<Rightarrow> (Inl e, st')
           | Inr data \<Rightarrow>
               (case subscript data ''data'' of
                  Inl e \<Rightarrow> (Inl e, st')
                | Inr d1 \<Rightarrow>
                    (case subscript d1 ''addProjectV2ItemById'' of
                       Inl e \<Rightarrow> (Inl e, st')
                     | Inr d2 \<Rightarrow>
                         (case subscript d2 ''item'' of
                            Inl e \<Rightarrow> (Inl e, st')
                          | Inr d3 \<Rightarrow> (subscript d3 ''id'', st'))))))"

definition milestone_cmd :: "int \<Rightarrow> int \<Rightarrow> string list" where
  "milestone_cmd issue_num milestone_num =
     [''gh'', ''issue'', ''edit'', str_int issue_num, ''--milestone'', str_int milestone_num]"

definition set_issue_milestone ::
  "'w env \<Rightarrow> int \<Rightarrow> int \<Rightarrow> 'w state \<Rightarrow> (py_exception + bool) \<times> 'w state" where
  "set_issue_milestone env issue_num milestone_num st =
     (case subprocess_run env (milestone_cmd issue_num milestone_num) st of
        (Inl (CalledProcessError cmd returncode stderr), st') \<Rightarrow> (Inr False, st')
      | (Inl e, st') \<Rightarrow> (Inl e, st')
      | (Inr stdout, st') \<Rightarrow> (Inr True, st'))"

definition view_cmd :: "int \<Rightarrow> string list" where
  "view_cmd issue_num = [''gh'', ''issue'', ''view'', str_int issue_num, ''--json'', ''body'']"

definition edit_body_cmd :: "int \<Rightarrow> string \<Rightarrow> string list" where
  "edit_body_cmd issue_num body = [''gh'', ''issue'', ''edit'', str_int issue_num, ''--body'', body]"

definition due_marker :: "string \<Rightarrow> string" where
  "due_marker date_str = ''**Due Date:** '' @ date_str"

text \<open>The body that is written back: the old one, a blank line and the marker, or the marker
  alone when the old body is empty.\<close>

definition new_body :: "'w env \<Rightarrow> json \<Rightarrow> string \<Rightarrow> string" where
  "new_body env body date_str =
     (if truthy body then format_value env body @ nl @ nl @ due_marker date_str
      else due_marker date_str)"

text \<open>The first half of the \<^verbatim>\<open>try\<close> block of \<^verbatim>\<open>set_issue_due_date\<close>: view the issue,
  decode the output and take \<^verbatim>\<open>data.get('body', '') or ''\<close>.\<close>

definition fetch_body :: "'w env \<Rightarrow> int \<Rightarrow> 'w state \<Rightarrow> (py_exception + json) \<times> 'w state" where
  "fetch_body env issue_num st =
     (case subprocess_run env (view_cmd issue_num) st of
        (Inl e, st') \<Rightarrow> (Inl e, st')
      | (Inr stdout, st') \<Rightarrow>
          (case json_loads env stdout of
             Inl e \<Rightarrow> (Inl e, st')
           | Inr data \<Rightarrow>
               (case dict_get data ''body'' (JStr []) of
                  Inl e \<Rightarrow> (Inl e, st')
                | Inr b0 \<Rightarrow> (Inr (if truthy b0 then b0 else JStr []), st'))))"

text \<open>The whole \<^verbatim>\<open>try\<close> block, before its handler.\<close>

definition due_date_try ::
  "'w env \<Rightarrow> int \<Rightarrow> string \<Rightarrow> 'w state \<Rightarrow> (py_exception + bool) \<times> 'w state" where
  "due_date_try env issue_num date_str st =
     (case fetch_body env issue_num st of
        (Inl e, st') \<Rightarrow> (Inl e, st')
      | (Inr body, st') \<Rightarrow>
          (case py_in (due_marker date_str) body of
             Inl e \<Rightarrow> (Inl e, st')
           | Inr present \<Rightarrow>
               if \<not> present then
                 (case subprocess_run env
                         (edit_body_cmd issue_num (new_body env body date_str)) st' of
                    (Inl e, st'') \<Rightarrow> (Inl e, st'')
                  | (Inr stdout', st'') \<Rightarrow> (Inr True, st''))
               else (Inr True, st')))"

definition set_issue_due_date ::
  "'w env \<Rightarrow> int \<Rightarrow> string \<Rightarrow> 'w state \<Rightarrow> (py_exception + bool) \<times> 'w state" where
  "set_issue_due_date env issue_num date_str st =
     (case due_date_try env issue_num date_str st of
        (Inl (CalledProcessError cmd returncode stderr), st') \<Rightarrow> (Inr False, st')
      | r \<Rightarrow> r)"

subsection \<open>The static tables\<close>

text \<open>The dictionaries keep their insertion order, so they are association lists here.
  An entry of \<open>project_map\<close> has the fields \<^verbatim>\<open>number\<close> and \<^verbatim>\<open>id\<close> (\<open>ident\<close> here).\<close>

record project =
  number :: int
  ident :: string

type_synonym assignment = "int \<times> string \<times> string \<times> string"

definition milestone_map :: "(string \<times> int) list" where
  "milestone_map =
     [(''Security Fix'', 2),
      (''Database Improvements'', 3),
      (''Poller Enhancements'', 4),
      (''Card Metadata Source'', 5),
      (''Full Integration'', 6),
      (''Basic Statistics'', 7),
      (''Advanced Analytics'', 8),
      (''Rank Features'', 9),
      (''Draft Storage'', 10),
      (''Draft Display'', 11),
      (''Draft Analytics'', 12),
      (''Collection Features'', 13),
      (''Deck Analysis'', 14),
      (''Collection-Deck Integration'', 15),
      (''GUI Foundation'', 16),
      (''Statistics GUI'', 17),
      (''Charts & Graphs'', 18),
      (''Advanced GUI Features'', 19),
      (''Export Features'', 20),
      (''External Integration'', 21)]"

definition project_map :: "(string \<times> project) list" where
  "project_map =
     [(''Security & Infrastructure'', \<lparr>number = 2, ident = ''PVT_kwHOABsZ684BHe6N''\<rparr>),
      (''Card Metadata Integration'', \<lparr>number = 3, ident = ''PVT_kwHOABsZ684BHe6O''\<rparr>),
      (''Statistics Enhancements'', \<lparr>number = 4, ident = ''PVT_kwHOABsZ684BHe6P''\<rparr>),
      (''Draft Features'', \<lparr>number = 5, ident = ''PVT_kwHOABsZ684BHe6Q''\<rparr>),
      (''Collection & Deck Management'', \<lparr>number = 6, ident = ''PVT_kwHOABsZ684BHe6S''\<rparr>),
      (''Fyne GUI Foundation'', \<lparr>number = 7, ident = ''PVT_kwHOABsZ684BHe6V''\<rparr>),
      (''GUI Features'', \<lparr>number = 8, ident = ''PVT_kwHOABsZ684BHe6W''\<rparr>),
      (''Export & Integration'', \<lparr>number = 9, ident = ''PVT_kwHOABsZ684BHe6X''\<rparr>)]"

definition assignments :: "(int \<times> (int \<times> string \<times> string \<times> string) list) list" where
  "assignments =
     [(2,
       [(31, ''Phase 1: Security'', ''Security Fix'', ''2025-11-07''),
        (59, ''Phase 2: Database'', ''Database Improvements'', ''2025-11-08''),
        (60, ''Phase 2: Database'', ''Database Improvements'', ''2025-11-09''),
        (65, ''Phase 3: Poller'', ''Poller Enhancements'', ''2025-11-10''),
        (66, ''Phase 3: Poller'', ''Poller Enhancements'', ''2025-11-11''),
        (67, ''Phase 3: Poller'', ''Poller Enhancements'', ''2025-11-12''),
        (68, ''Phase 3: Poller'', ''Poller Enhancements'', ''2025-11-13''),
        (69, ''Phase 3: Poller'', ''Poller Enhancements'', ''2025-11-14'')]),
      (3,
       [(71, ''Phase 1: Foundation'', ''Card Metadata Source'', ''2025-11-15''),
        (79, ''Phase 2: Integration'', ''Full Integration'', ''2025-11-16''),
        (118, ''Phase 2: Integration'', ''Full Integration'', ''2025-11-17'')]),
      (4,
       [(38, ''Phase 1: Core Statistics'', ''Basic Statistics'', ''2025-11-18''),
        (39, ''Phase 1: Core Statistics'', ''Basic Statistics'', ''2025-11-19''),
        (40, ''Phase 1: Core Statistics'', ''Basic Statistics'', ''2025-11-20''),
        (41, ''Phase 1: Core Statistics'', ''Basic Statistics'', ''2025-11-21''),
        (42, ''Phase 1: Core Statistics'', ''Basic Statistics'', ''2025-11-22''),
        (43, ''Phase 1: Core Statistics'', ''Basic Statistics'', ''2025-11-23''),
        (44, ''Phase 1: Core Statistics'', ''Basic Statistics'', ''2025-11-24''),
        (45, ''Phase 1: Core Statistics'', ''Basic Statistics'', ''2025-11-25''),
        (46, ''Phase 1: Core Statistics'', ''Basic Statistics'', ''2025-11-26''),
        (47, ''Phase 2: Advanced Analytics'', ''Advanced Analytics'', ''2025-11-27''),
        (48, ''Phase 1: Core Statistics'', ''Basic Statistics'', ''2025-11-28''),
        (49, ''Phase 1: Core Statistics'', ''Basic Statistics'', ''2025-11-29''),
        (57, ''Phase 2: Advanced Analytics'', ''Advanced Analytics'', ''2025-11-30''),
        (72, ''Phase 1: Core Statistics'', ''Basic Statistics'', ''2025-12-01''),
        (76, ''Phase 1: Core Statistics'', ''Basic Statistics'', ''2025-12-02''),
        (81, ''Phase 1: Core Statistics'', ''Basic Statistics'', ''2025-12-03''),
        (87, ''Phase 2: Advanced Analytics'', ''Advanced Analytics'', ''2025-12-04''),
        (88, ''Phase 2: Advanced Analytics'', ''Advanced Analytics'', ''2025-12-05''),
        (89, ''Phase 2: Advanced Analytics'', ''Advanced Analytics'', ''2025-12-06''),
        (90, ''Phase 2: Advanced Analytics'', ''Advanced Analytics'', ''2025-12-07''),
        (91, ''Phase 2: Advanced Analytics'', ''Advanced Analytics'', ''2025-12-08''),
        (92, ''Phase 2: Advanced Analytics'', ''Advanced Analytics'', ''2025-12-09''),
        (94, ''Phase 2: Advanced Analytics'', ''Advanced Analytics'', ''2025-12-10''),
        (95, ''Phase 2: Advanced Analytics'', ''Advanced Analytics'', ''2025-12-11''),
        (96, ''Phase 2: Advanced Analytics'', ''Advanced Analytics'', ''2025-12-12''),
        (97, ''Phase 2: Advanced Analytics'', ''Advanced Analytics'', ''2025-12-13''),
        (98, ''Phase 2: Advanced Analytics'', ''Advanced Analytics'', ''2025-12-14''),
        (99, ''Phase 2: Advanced Analytics'', ''Advanced Analytics'', ''2025-12-15''),
        (100, ''Phase 1: Core Statistics'', ''Basic Statistics'', ''2025-12-16''),
        (102, ''Phase 3: Rank Tracking'', ''Rank Features'', ''2025-12-17''),
        (103, ''Phase 3: Rank Tracking'', ''Rank Features'', ''2025-12-18''),
        (104, ''Phase 3: Rank Tracking'', ''Rank Features'', ''2025-12-19''),
        (105, ''Phase 3: Rank Tracking'', ''Rank Features'', ''2025-12-20''),
        (106, ''Phase 3: Rank Tracking'', ''Rank Features'', ''2025-12-21''),
        (107, ''Phase 3: Rank Tracking'', ''Rank Features'', ''2025-12-22''),
        (108, ''Phase 3: Rank Tracking'', ''Rank Features'', ''2025-12-23''),
        (109, ''Phase 3: Rank Tracking'', ''Rank Features'', ''2025-12-24''),
        (110, ''Phase 3: Rank Tracking'', ''Rank Features'', ''2025-12-25'')]),
      (5,
       [(112, ''Phase 1: Storage'', ''Draft Storage'', ''2025-12-26''),
        (113, ''Phase 2: Display'', ''Draft Display'', ''2025-12-27''),
        (114, ''Phase 2: Display'', ''Draft Display'', ''2025-12-28''),
        (115, ''Phase 3: Analytics'', ''Draft Analytics'', ''2025-12-29''),
        (116, ''Phase 2: Display'', ''Draft Display'', ''2025-12-30''),
        (117, ''Phase 2: Display'', ''Draft Display'', ''2025-12-31''),
        (118, ''Phase 2: Display'', ''Draft Display'', ''2026-01-01''),
        (119, ''Phase 3: Analytics'', ''Draft Analytics'', ''2026-01-02''),
        (120, ''Phase 3: Analytics'', ''Draft Analytics'', ''2026-01-03''),
        (121, ''Phase 3: Analytics'', ''Draft Analytics'', ''2026-01-04''),
        (122, ''Phase 3: Analytics'', ''Draft Analytics'', ''2026-01-05'')]),
      (6,
       [(73, ''Phase 1: Collection'', ''Collection Features'', ''2026-01-06''),
        (74, ''Phase 3: Integration'', ''Collection-Deck Integration'', ''2026-01-07''),
        (75, ''Phase 3: Integration'', ''Collection-Deck Integration'', ''2026-01-08''),
        (76, ''Phase 1: Collection'', ''Collection Features'', ''2026-01-09''),
        (77, ''Phase 1: Collection'', ''Collection Features'', ''2026-01-10''),
        (80, ''Phase 2: Deck Analysis'', ''Deck Analysis'', ''2026-01-11''),
        (82, ''Phase 2: Deck Analysis'', ''Deck Analysis'', ''2026-01-12''),
        (83, ''Phase 3: Integration'', ''Collection-Deck Integration'', ''2026-01-13''),
        (84, ''Phase 3: Integration'', ''Collection-Deck Integration'', ''2026-01-14''),
        (85, ''Phase 3: Integration'', ''Collection-Deck Integration'', ''2026-01-15'')]),
      (7,
       [(50, ''Phase 1: Foundation'', ''GUI Foundation'', ''2026-01-16''),
        (53, ''Phase 1: Foundation'', ''GUI Foundation'', ''2026-01-17'')]),
      (8,
       [(51, ''Phase 1: Statistics GUI'', ''Statistics GUI'', ''2026-01-18''),
        (52, ''Phase 2: Visualizations'', ''Charts & Graphs'', ''2026-01-19''),
        (54, ''Phase 2: Visualizations'', ''Charts & Graphs'', ''2026-01-20''),
        (55, ''Phase 1: Statistics GUI'', ''Statistics GUI'', ''2026-01-21''),
        (56, ''Phase 3: Advanced Features'', ''Advanced GUI Features'', ''2026-01-22''),
        (61, ''Phase 3: Advanced Features'', ''Advanced GUI Features'', ''2026-01-23''),
        (62, ''Phase 3: Advanced Features'', ''Advanced GUI Features'', ''2026-01-24''),
        (63, ''Phase 3: Advanced Features'', ''Advanced GUI Features'', ''2026-01-25''),
        (77, ''Phase 1: Statistics GUI'', ''Statistics GUI'', ''2026-01-26''),
        (90, ''Phase 2: Visualizations'', ''Charts & Graphs'', ''2026-01-27''),
        (98, ''Phase 2: Visualizations'', ''Charts & Graphs'', ''2026-01-28''),
        (105, ''Phase 1: Statistics GUI'', ''Statistics GUI'', ''2026-01-29''),
        (110, ''Phase 2: Visualizations'', ''Charts & Graphs'', ''2026-01-30''),
        (113, ''Phase 1: Statistics GUI'', ''Statistics GUI'', ''2026-01-31''),
        (114, ''Phase 1: Statistics GUI'', ''Statistics GUI'', ''2026-02-01''),
        (117, ''Phase 2: Visualizations'', ''Charts & Graphs'', ''2026-02-02'')]),
      (9,
       [(42, ''Phase 1: Export'', ''Export Features'', ''2026-02-03''),
        (58, ''Phase 2: Integration'', ''External Integration'', ''2026-02-04''),
        (73, ''Phase 1: Export'', ''Export Features'', ''2026-02-05''),
        (82, ''Phase 1: Export'', ''Export Features'', ''2026-02-06''),
        (92, ''Phase 1: Export'', ''Export Features'', ''2026-02-07''),
        (97, ''Phase 1: Export'', ''Export Features'', ''2026-02-08''),
        (116, ''Phase 1: Export'', ''Export Features'', ''2026-02-09'')])]"

subsection \<open>\<^verbatim>\<open>main\<close>\<close>

text \<open>The counters of \<^verbatim>\<open>main\<close>: \<^verbatim>\<open>processed\<close>, \<^verbatim>\<open>total\<close> and the list \<^verbatim>\<open>errors\<close>.\<close>

record run_result =
  processed :: int
  total_issues :: int
  errors :: "(int \<times> string) list"

definition check_mark :: string where
  "check_mark = [CHR 0xE2, CHR 0x9C, CHR 0x93]"

definition cross_mark :: string where
  "cross_mark = [CHR 0xE2, CHR 0x9C, CHR 0x97]"

text \<open>The body of the \<^verbatim>\<open>try\<close> statement for one assignment tuple. The tables are parameters:
  \<^verbatim>\<open>main\<close> itself reads the three global ones.\<close>

definition try_body ::
  "'w env \<Rightarrow> (string \<times> int) list \<Rightarrow> string \<Rightarrow> assignment \<Rightarrow> 'w state
     \<Rightarrow> (py_exception + unit) \<times> 'w state" where
  "try_body env mmap project_id t st =
     (case t of (issue_num, phase, milestone, date_str) \<Rightarrow>
        let st0 = print st (''  Issue #'' @ str_int issue_num @ ''...'') '' '' in
        (case get_issue_node_id env issue_num st0 of
           (Inl e, st1) \<Rightarrow> (Inl e, st1)
         | (Inr issue_node_id, st1) \<Rightarrow>
             (case add_issue_to_project env project_id issue_node_id st1 of
                (Inl e, st2) \<Rightarrow> (Inl e, st2)
              | (Inr item_id, st2) \<Rightarrow>
                  let st3 = (if truthy item_id then print st2 ''added to project'' '', ''
                             else print st2 ''already in project'' '', '') in
                  (case map_of mmap milestone of
                     None \<Rightarrow> (Inl (KeyError milestone), st3)
                   | Some milestone_num \<Rightarrow>
                       (case set_issue_milestone env issue_num milestone_num st3 of
                          (Inl e, st4) \<Rightarrow> (Inl e, st4)
                        | (Inr m_ok, st4) \<Rightarrow>
                            let st5 = (if m_ok then print st4 ''milestone set'' '', '' else st4) in
                            (case set_issue_due_date env issue_num date_str st5 of
                               (Inl e, st6) \<Rightarrow> (Inl e, st6)
                             | (Inr d_ok, st6) \<Rightarrow>
                                 let st7 = (if d_ok then print st6 ''due date set'' [] else st6) in
                                 (Inr (), print st7 ('' '' @ check_mark) nl)))))))"

text \<open>One pass of the inner \<^verbatim>\<open>for\<close> loop: the \<^verbatim>\<open>try\<close> body, then either
  \<^verbatim>\<open>processed += 1\<close> or the handler of \<^verbatim>\<open>except Exception as e\<close>.\<close>

definition issue_iteration ::
  "'w env \<Rightarrow> (string \<times> int) list \<Rightarrow> string \<Rightarrow> assignment \<Rightarrow> 'w state \<times> run_result
     \<Rightarrow> 'w state \<times> run_result" where
  "issue_iteration env mmap project_id t acc =
     (case acc of (st, r) \<Rightarrow>
        (case try_body env mmap project_id t st of
           (Inr u, st') \<Rightarrow> (st', r\<lparr>processed := processed r + 1\<rparr>)
         | (Inl e, st') \<Rightarrow>
             (print st' ('' '' @ cross_mark @ '' Error: '' @ str_exc env e) nl,
              r\<lparr>errors := errors r @ [(fst t, str_exc env e)]\<rparr>)))"

fun issues_loop ::
  "'w env \<Rightarrow> (string \<times> int) list \<Rightarrow> string \<Rightarrow> assignment list \<Rightarrow> 'w state \<times> run_result
     \<Rightarrow> 'w state \<times> run_result" where
  "issues_loop env mmap project_id [] acc = acc"
| "issues_loop env mmap project_id (t # ts) acc =
     issues_loop env mmap project_id ts (issue_iteration env mmap project_id t acc)"

text \<open>\<^verbatim>\<open>[k for k, v in project_map.items() if v["number"] == project_num]\<close>\<close>

definition project_names :: "(string \<times> project) list \<Rightarrow> int \<Rightarrow> string list" where
  "project_names pmap project_num = map fst (filter (\<lambda>(k, v). number v = project_num) pmap)"

text \<open>The outer \<^verbatim>\<open>for\<close> loop. Taking element \<open>0\<close> of the list of names and looking the name
  up again happen outside every \<^verbatim>\<open>try\<close>: an exception there ends \<^verbatim>\<open>main\<close>.\<close>

fun projects_loop ::
  "'w env \<Rightarrow> (string \<times> int) list \<Rightarrow> (string \<times> project) list
     \<Rightarrow> (int \<times> assignment list) list \<Rightarrow> 'w state \<times> run_result
     \<Rightarrow> (py_exception + run_result) \<times> 'w state" where
  "projects_loop env mmap pmap [] acc = (Inr (snd acc), fst acc)"
| "projects_loop env mmap pmap ((project_num, issues) # rest) acc =
     (case project_names pmap project_num of
        [] \<Rightarrow> (Inl IndexError, fst acc)
      | project_name # others \<Rightarrow>
          (case map_of pmap project_name of
             None \<Rightarrow> (Inl (KeyError project_name), fst acc)
           | Some p \<Rightarrow>
               let st1 = print (fst acc)
                           (nl @ ''Processing '' @ project_name @ '' ('' @
                            str_int (int (length issues)) @ '' issues)...'') nl
               in projects_loop env mmap pmap rest
                    (issues_loop env mmap (ident p) issues (st1, snd acc))))"

fun print_errors :: "'w state \<Rightarrow> (int \<times> string) list \<Rightarrow> 'w state" where
  "print_errors st [] = st"
| "print_errors st ((issue_num, error) # es) =
     print_errors (print st (''  Issue #'' @ str_int issue_num @ '': '' @ error) nl) es"

definition count_total :: "(int \<times> assignment list) list \<Rightarrow> int" where
  "count_total asg = sum_list (map (\<lambda>(project_num, issues). int (length issues)) asg)"

definition summary_line :: "run_result \<Rightarrow> string" where
  "summary_line r =
     ''Completed: '' @ str_int (processed r) @ ''/'' @ str_int (total_issues r) @ '' issues processed''"

text \<open>\<^verbatim>\<open>main\<close> over given tables; it returns its counters, which the script only prints.\<close>

definition run_main ::
  "'w env \<Rightarrow> (string \<times> int) list \<Rightarrow> (string \<times> project) list
     \<Rightarrow> (int \<times> assignment list) list \<Rightarrow> 'w state
     \<Rightarrow> (py_exception + run_result) \<times> 'w state" where
  "run_main env mmap pmap asg st =
     (case projects_loop env mmap pmap asg
             (st, \<lparr>processed = 0, total_issues = count_total asg, errors = []\<rparr>) of
        (Inl e, st') \<Rightarrow> (Inl e, st')
      | (Inr r, st') \<Rightarrow>
          let st1 = print st' (nl @ nl @ summary_line r) nl in
          (Inr r,
           if errors r \<noteq> [] then
             print_errors
               (print st1 (nl @ ''Errors ('' @ str_int (int (length (errors r))) @ ''):'') nl)
               (errors r)
           else st1))"

definition main :: "'w env \<Rightarrow> 'w state \<Rightarrow> (py_exception + run_result) \<times> 'w state" where
  "main env st = run_main env milestone_map project_map assignments st"

text \<open>The exit status of the process: \<open>0\<close> when \<^verbatim>\<open>main\<close> returns, \<open>1\<close> when an exception
  leaves it.\<close>

definition exit_status :: "(py_exception + 'a) \<times> 'w state \<Rightarrow> int" where
  "exit_status res = (case fst res of Inl e \<Rightarrow> 1 | Inr v \<Rightarrow> 0)"

section \<open>\<^verbatim>\<open>scripts/configure_required_checks.py\<close>\<close>

definition REPO :: string where
  "REPO = ''RdHamilton/MTGA-Companion''"

definition RULESET_ID :: int where
  "RULESET_ID = 9523549"

definition REQUIRED_CHECKS :: "string list" where
  "REQUIRED_CHECKS = [''Test (Linux)'', ''Lint'', ''Format Check'']"

text \<open>\<^verbatim>\<open>str.split()\<close> without arguments, on the ASCII white space.\<close>

definition is_space :: "char \<Rightarrow> bool" where
  "is_space c =
     (c \<in> set [CHR 0x09, CHR 0x0A, CHR 0x0B, CHR 0x0C, CHR 0x0D,
                CHR 0x1C, CHR 0x1D, CHR 0x1E, CHR 0x1F, CHR 0x20])"

fun split_words :: "string \<Rightarrow> string \<Rightarrow> string list" where
  "split_words cur [] = (if cur = [] then [] else [cur])"
| "split_words cur (c # cs) =
     (if is_space c then (if cur = [] then split_words [] cs else cur # split_words [] cs)
      else split_words (cur @ [c]) cs)"

definition split :: "string \<Rightarrow> string list" where
  "split s = split_words [] s"

text \<open>The decoded output of \<^verbatim>\<open>gh api <cmd>\<close>, or \<^verbatim>\<open>None\<close> after a message when the command
  exits non-zero or its output is not JSON.\<close>

definition run_gh_command ::
  "'w env \<Rightarrow> string \<Rightarrow> 'w state \<Rightarrow> (py_exception + json) \<times> 'w state" where
  "run_gh_command env cmd st =
     (case subprocess_run env ([''gh'', ''api''] @ split cmd) st of
        (Inl (CalledProcessError c returncode stderr), st') \<Rightarrow>
          (Inr JNull,
           print (print st' (''Error running command: '' @ cmd) nl) (''Error: '' @ stderr) nl)
      | (Inl e, st') \<Rightarrow> (Inl e, st')
      | (Inr stdout, st') \<Rightarrow>
          (case json_loads env stdout of
             Inl e \<Rightarrow> (Inr JNull, print st' (''Error parsing JSON: '' @ str_exc env e) nl)
           | Inr v \<Rightarrow> (Inr v, st')))"

definition ruleset_path :: string where
  "ruleset_path = ''repos/'' @ REPO @ ''/rulesets/'' @ str_int RULESET_ID"

definition get_current_ruleset :: "'w env \<Rightarrow> 'w state \<Rightarrow> (py_exception + json) \<times> 'w state" where
  "get_current_ruleset env st = run_gh_command env ruleset_path st"

text \<open>\<^verbatim>\<open>for r in v\<close>: the elements of a list, the keys of a dict, the characters of a string;
  nothing else can be iterated.\<close>

fun py_iter :: "json \<Rightarrow> py_exception + json list" where
  "py_iter (JArr xs) = Inr xs"
| "py_iter (JObj kvs) = Inr (map (\<lambda>kv. JStr (fst kv)) kvs)"
| "py_iter (JStr s) = Inr (map (\<lambda>c. JStr [c]) s)"
| "py_iter v = Inl TypeError"

text \<open>\<^verbatim>\<open>[r.get('type') for r in rules]\<close>\<close>

fun rule_types :: "json list \<Rightarrow> py_exception + json list" where
  "rule_types [] = Inr []"
| "rule_types (r # rs) =
     (case dict_get r ''type'' JNull of
        Inl e \<Rightarrow> Inl e
      | Inr t \<Rightarrow> (case rule_types rs of Inl e \<Rightarrow> Inl e | Inr ts \<Rightarrow> Inr (t # ts)))"

text \<open>\<^verbatim>\<open>any(r.get("type") == "required_status_checks" for r in rules)\<close>, which stops at the
  first hit.\<close>

fun any_required :: "json list \<Rightarrow> py_exception + bool" where
  "any_required [] = Inr False"
| "any_required (r # rs) =
     (case dict_get r ''type'' JNull of
        Inl e \<Rightarrow> Inl e
      | Inr t \<Rightarrow> if t = JStr ''required_status_checks'' then Inr True else any_required rs)"

fun print_checks :: "'w state \<Rightarrow> string list \<Rightarrow> 'w state" where
  "print_checks st [] = st"
| "print_checks st (check # cs) = print_checks (print st (''   - '' @ check) nl) cs"

definition quote :: string where
  "quote = [CHR 0x27]"

text \<open>The manual instructions printed when the rule is missing.\<close>

definition print_instructions :: "'w state \<Rightarrow> 'w state" where
  "print_instructions st =
     (let s1 = print st (nl @ ''To add required status checks, you have two options:'') nl;
          s2 = print s1 (nl @ ''Option 1: Update the ruleset via GitHub UI'') nl;
          s3 = print s2 (''1. Go to: https://github.com/'' @ REPO @ ''/settings/rules'') nl;
          s4 = print s3 (''2. Click on ruleset ID '' @ str_int RULESET_ID) nl;
          s5 = print s4 (''3. Click '' @ quote @ ''Add rule'' @ quote @ '' and select '' @
                         quote @ ''Required status checks'' @ quote) nl;
          s6 = print s5 ''4. Add the following checks:'' nl;
          s7 = print_checks s6 REQUIRED_CHECKS;
          s8 = print s7 ''5. Save the changes'' nl;
          s9 = print s8 (nl @ ''Option 2: Set up branch protection (Recommended)'') nl;
          s10 = print s9 (''1. Go to: https://github.com/'' @ REPO @ ''/settings/branches'') nl;
          s11 = print s10 (''2. Click '' @ quote @ ''Add rule'' @ quote @
                           '' or edit existing rule for '' @ quote @ ''main'' @ quote @ '' branch'') nl;
          s12 = print s11 (''3. Enable '' @ quote @
                           ''Require status checks to pass before merging'' @ quote) nl;
          s13 = print s12 ''4. Select the following required checks:'' nl;
          s14 = print_checks s13 REQUIRED_CHECKS;
          s15 = print s14 (''5. Optionally enable '' @ quote @
                           ''Require branches to be up to date before merging'' @ quote) nl;
          s16 = print s15 ''6. Save the changes'' nl;
          s17 = print s16 (nl @ ''Note: Branch protection is more flexible and easier to manage.'') nl
      in print s17 ''Rulesets are newer but may have limitations.'' nl)"

definition update_ruleset_with_required_checks ::
  "'w env \<Rightarrow> 'w state \<Rightarrow> (py_exception + bool) \<times> 'w state" where
  "update_ruleset_with_required_checks env st =
     (case get_current_ruleset env st of
        (Inl e, st1) \<Rightarrow> (Inl e, st1)
      | (Inr current, st1) \<Rightarrow>
          if \<not> truthy current then
            (Inr False, print st1 ''Error: Could not fetch current ruleset'' nl)
          else
            (case dict_get current ''name'' JNull of
               Inl e \<Rightarrow> (Inl e, st1)
             | Inr name \<Rightarrow>
                 let st2 = print st1 (''Current ruleset: '' @ format_value env name) nl in
                 (case dict_get current ''rules'' (JArr []) of
                    Inl e \<Rightarrow> (Inl e, st2)
                  | Inr rules \<Rightarrow>
                      (case py_iter rules of
                         Inl e \<Rightarrow> (Inl e, st2)
                       | Inr rs \<Rightarrow>
                           (case rule_types rs of
                              Inl e \<Rightarrow> (Inl e, st2)
                            | Inr ts \<Rightarrow>
                                let st3 = print st2 (''Current rules: '' @ str_value env (JArr ts)) nl in
                                (case any_required rs of
                                   Inl e \<Rightarrow> (Inl e, st3)
                                 | Inr has_required_checks \<Rightarrow>
                                     if has_required_checks then
                                       (Inr True,
                                        print st3 ''Required status checks rule already exists in ruleset'' nl)
                                     else (Inr False, print_instructions st3)))))))"

text \<open>The script: \<^verbatim>\<open>sys.exit(0 if success else 1)\<close>; an exception that nothing catches ends
  the process with status \<open>1\<close>.\<close>

definition configure_exit_status :: "'w env \<Rightarrow> 'w state \<Rightarrow> int" where
  "configure_exit_status env st =
     (case fst (update_ruleset_with_required_checks env st) of
        Inl e \<Rightarrow> 1
      | Inr success \<Rightarrow> if success then 0 else 1)"

section \<open>Reading a run\<close>

text \<open>The commands issued between two states.\<close>

definition new_calls :: "'w state \<Rightarrow> 'w state \<Rightarrow> string list list" where
  "new_calls st st' = drop (length (calls st)) (calls st')"

section \<open>Notions used to state the properties\<close>

text \<open>All assignment tuples of a table, in the order \<^verbatim>\<open>main\<close> visits them.\<close>

definition all_tuples :: "(int \<times> assignment list) list \<Rightarrow> assignment list" where
  "all_tuples asg = concat (map snd asg)"

text \<open>Every project number of the table is the \<^verbatim>\<open>number\<close> of some entry of the project map.\<close>

definition projects_resolvable ::
  "(string \<times> project) list \<Rightarrow> (int \<times> assignment list) list \<Rightarrow> bool" where
  "projects_resolvable pmap asg = list_all (\<lambda>(project_num, issues). project_names pmap project_num \<noteq> []) asg"

text \<open>The ruleset as the external command delivers it: the decoded output of a run that
  exits with status \<open>0\<close>.\<close>

definition fetched_ruleset :: "'w env \<Rightarrow> 'w state \<Rightarrow> json option" where
  "fetched_ruleset env st =
     (case fst (run env ([''gh'', ''api''] @ split ruleset_path) (world st)) of
        Exited returncode stdout stderr \<Rightarrow> if returncode = 0 then loads env stdout else None
      | SpawnFailed msg \<Rightarrow> None)"

definition is_object :: "json \<Rightarrow> bool" where
  "is_object v = (case v of JObj kvs \<Rightarrow> True | _ \<Rightarrow> False)"

text \<open>The rules of a ruleset: the list under its key \<^verbatim>\<open>rules\<close>.\<close>

definition ruleset_rules :: "json \<Rightarrow> json list" where
  "ruleset_rules current =
     (case current of
        JObj kvs \<Rightarrow> (case map_of kvs ''rules'' of Some (JArr rs) \<Rightarrow> rs | _ \<Rightarrow> [])
      | _ \<Rightarrow> [])"

definition is_required_rule :: "json \<Rightarrow> bool" where
  "is_required_rule r =
     (case r of JObj kvs \<Rightarrow> map_of kvs ''type'' = Some (JStr ''required_status_checks'')
      | _ \<Rightarrow> False)"

definition has_required_rule :: "json \<Rightarrow> bool" where
  "has_required_rule current = list_ex is_required_rule (ruleset_rules current)"

definition rules_are_objects :: "json \<Rightarrow> bool" where
  "rules_are_objects current = list_all is_object (ruleset_rules current)"

text \<open>A ruleset of the expected shape: an object whose \<^verbatim>\<open>rules\<close>, when present, are a list of
  objects.\<close>

definition wf_ruleset :: "json \<Rightarrow> bool" where
  "wf_ruleset current =
     (case current of
        JObj kvs \<Rightarrow>
          (case map_of kvs ''rules'' of
             None \<Rightarrow> True
           | Some (JArr rs) \<Rightarrow> list_all is_object rs
           | Some v \<Rightarrow> False)
      | _ \<Rightarrow> False)"

section \<open>A stub transport for concrete runs\<close>

text \<open>A stateless stand-in for the external command. A command listed in \<open>answers\<close> gets
  the outcome listed for it; every other command succeeds, with an output that only names its
  kind: \<open>I\<close> for an issue lookup, \<open>A\<close> for the project mutation, \<open>B\<close> followed by the body for
  \<^verbatim>\<open>gh issue view\<close>.\<close>

definition canned_default :: "string list \<Rightarrow> proc_outcome" where
  "canned_default cmd =
     (case drop 2 cmd of
        [] \<Rightarrow> Exited 1 [] ''unknown command''
      | sub # args \<Rightarrow>
          if sub = ''graphql'' then
            (if starts_with (''query='' @ nl @ ''    mutation'') (last cmd) then Exited 0 ''A'' []
             else Exited 0 ''I'' [])
          else if sub = ''view'' then Exited 0 ''B'' []
          else Exited 0 [] [])"

definition canned ::
  "(string list \<times> proc_outcome) list \<Rightarrow> string list \<Rightarrow> unit \<Rightarrow> proc_outcome \<times> unit" where
  "canned answers cmd w =
     (case map_of answers cmd of Some oc \<Rightarrow> (oc, w) | None \<Rightarrow> (canned_default cmd, w))"

text \<open>The decoder that goes with it: \<open>N\<close> is a lookup answer whose issue is \<^verbatim>\<open>null\<close>, \<open>R\<close> a
  ruleset with a required-status-checks rule, \<open>S\<close> a ruleset without one, \<open>T\<close> a ruleset
  with the rule followed by a rule that is \<^verbatim>\<open>null\<close>.\<close>

definition stub_loads :: "string \<Rightarrow> json option" where
  "stub_loads s =
     (case s of
        [] \<Rightarrow> None
      | tag # text \<Rightarrow>
          if tag = CHR ''I'' then
            Some (JObj [(''data'', JObj [(''repository'',
                    JObj [(''issue'', JObj [(''id'', JStr ''I_node'')])])])])
          else if tag = CHR ''N'' then
            Some (JObj [(''data'', JObj [(''repository'', JObj [(''issue'', JNull)])])])
          else if tag = CHR ''A'' then
            Some (JObj [(''data'', JObj [(''addProjectV2ItemById'',
                    JObj [(''item'', JObj [(''id'', JStr ''PVTI_item'')])])])])
          else if tag = CHR ''B'' then Some (JObj [(''body'', JStr text)])
          else if tag = CHR ''R'' then
            Some (JObj [(''name'', JStr ''main''),
                        (''rules'', JArr [JObj [(''type'', JStr ''deletion'')],
                                          JObj [(''type'', JStr ''required_status_checks'')]])])
          else if tag = CHR ''S'' then
            Some (JObj [(''name'', JStr ''main''),
                        (''rules'', JArr [JObj [(''type'', JStr ''deletion'')]])])
          else if tag = CHR ''T'' then
            Some (JObj [(''name'', JStr ''main''),
                        (''rules'', JArr [JObj [(''type'', JStr ''required_status_checks'')],
                                          JNull])])
          else None)"

definition stub_str_exc :: "py_exception \<Rightarrow> string" where
  "stub_str_exc e =
     (case e of
        CalledProcessError cmd returncode stderr \<Rightarrow> ''non-zero exit status''
      | OSError msg \<Rightarrow> msg
      | JSONDecodeError doc \<Rightarrow> ''Expecting value''
      | KeyError k \<Rightarrow> quote @ k @ quote
      | IndexError \<Rightarrow> ''list index out of range''
      | TypeError \<Rightarrow> ''object is not subscriptable''
      | AttributeError \<Rightarrow> ''object has no attribute'')"

definition stub_env :: "(string list \<times> proc_outcome) list \<Rightarrow> unit env" where
  "stub_env answers =
     \<lparr>run = canned answers, loads = stub_loads, str_exc = stub_str_exc,
      str_value = (\<lambda>v. ''None'')\<rparr>"

definition st0 :: "unit state" where
  "st0 = \<lparr>world = (), calls = [], out = []\<rparr>"

text \<open>The first tuples of the table.\<close>

definition issue31 :: assignment where
  "issue31 = (31, ''Phase 1: Security'', ''Security Fix'', ''2025-11-07'')"

definition issue59 :: assignment where
  "issue59 = (59, ''Phase 2: Database'', ''Database Improvements'', ''2025-11-08'')"


definition not_found :: proc_outcome where
  "not_found = Exited 1 [] ''GraphQL: Could not resolve to an Issue with the number of 59.''"

section \<open>Substrings and the commands of one operation\<close>

lemma starts_with_iff: "starts_with p s \<longleftrightarrow> (\<exists>ss. s = p @ ss)"
  by (induction p s rule: starts_with.induct) auto

text \<open>\<^const>\<open>str_contains\<close> is the substring relation.\<close>

lemma str_contains_iff: "str_contains p s \<longleftrightarrow> (\<exists>ps ss. s = ps @ p @ ss)"
proof (induction s)
  case Nil
  then show ?case by auto
next
  case (Cons c cs)
  show ?case
  proof
    assume "str_contains p (c # cs)"
    then consider "starts_with p (c # cs)" | "str_contains p cs" by auto
    then show "\<exists>ps ss. c # cs = ps @ p @ ss"
    proof cases
      case 1
      then obtain ss where "c # cs = p @ ss" by (auto simp: starts_with_iff)
      then have "c # cs = [] @ p @ ss" by simp
      then show ?thesis by blast
    next
      case 2
      then obtain ps ss where "cs = ps @ p @ ss" using Cons.IH by auto
      then have "c # cs = (c # ps) @ p @ ss" by simp
      then show ?thesis by blast
    qed
  next
    assume "\<exists>ps ss. c # cs = ps @ p @ ss"
    then obtain ps ss where eq: "c # cs = ps @ p @ ss" by blast
    show "str_contains p (c # cs)"
    proof (cases ps)
      case Nil
      then have "starts_with p (c # cs)" using eq by (auto simp: starts_with_iff)
      then show ?thesis by simp
    next
      case (Cons a ps')
      then have "cs = ps' @ p @ ss" using eq by simp
      then have "str_contains p cs" using Cons.IH by blast
      then show ?thesis by simp
    qed
  qed
qed

lemma str_contains_sublist: "str_contains p s \<longleftrightarrow> sublist p s"
  by (simp add: str_contains_iff sublist_def)

lemma str_contains_suffix: "str_contains p (xs @ p)"
proof -
  have "xs @ p = xs @ p @ []" by simp
  then show ?thesis unfolding str_contains_iff by blast
qed

lemma str_contains_self: "str_contains p p"
  using str_contains_suffix [of p "[]"] by simp

lemma subprocess_run_calls: "calls (snd (subprocess_run env cmd st)) = calls st @ [cmd]"
  by (auto simp: subprocess_run_def Let_def split: prod.splits proc_outcome.splits)

lemma subprocess_run_out: "out (snd (subprocess_run env cmd st)) = out st"
  by (auto simp: subprocess_run_def Let_def split: prod.splits proc_outcome.splits)

lemma subprocess_run_eq_calls:
  "subprocess_run env cmd st = (r, st') \<Longrightarrow> calls st' = calls st @ [cmd] \<and> out st' = out st"
  using subprocess_run_calls [of env cmd st] subprocess_run_out [of env cmd st] by simp

lemma new_calls_append: "calls st' = calls st @ cs \<Longrightarrow> new_calls st st' = cs"
  by (simp add: new_calls_def)

lemma fetch_body_eq_calls:
  "fetch_body env n st = (r, st') \<Longrightarrow> calls st' = calls st @ [view_cmd n] \<and> out st' = out st"
  unfolding fetch_body_def
  by (auto split: prod.splits sum.splits dest!: subprocess_run_eq_calls)

lemma get_issue_node_id_eq_calls:
  "get_issue_node_id env n st = (r, st') \<Longrightarrow> calls st' = calls st @ [lookup_cmd n] \<and> out st' = out st"
  unfolding get_issue_node_id_def
  by (auto split: prod.splits sum.splits dest!: subprocess_run_eq_calls)

lemma add_issue_to_project_eq_calls:
  "add_issue_to_project env pid nid st = (r, st') \<Longrightarrow>
     calls st' = calls st @ [add_cmd pid (format_value env nid)] \<and> out st' = out st"
  unfolding add_issue_to_project_def
  by (auto split: prod.splits sum.splits py_exception.splits if_splits dest!: subprocess_run_eq_calls)

lemma set_issue_milestone_eq_calls:
  "set_issue_milestone env n k st = (r, st') \<Longrightarrow>
     calls st' = calls st @ [milestone_cmd n k] \<and> out st' = out st"
  unfolding set_issue_milestone_def
  by (auto split: prod.splits sum.splits py_exception.splits dest!: subprocess_run_eq_calls)

lemma due_date_try_calls:
  "calls (snd (due_date_try env n d st)) =
     calls st @
       (case fetch_body env n st of
          (Inl e, st') \<Rightarrow> [view_cmd n]
        | (Inr body, st') \<Rightarrow>
            if py_in (due_marker d) body = Inr False
            then [view_cmd n, edit_body_cmd n (new_body env body d)]
            else [view_cmd n])"
  unfolding due_date_try_def
  by (auto split: prod.splits sum.splits
           dest!: subprocess_run_eq_calls fetch_body_eq_calls)

lemma due_date_try_out: "out (snd (due_date_try env n d st)) = out st"
  unfolding due_date_try_def
  by (auto split: prod.splits sum.splits
           dest!: subprocess_run_eq_calls fetch_body_eq_calls)

lemma set_issue_due_date_snd: "snd (set_issue_due_date env n d st) = snd (due_date_try env n d st)"
  unfolding set_issue_due_date_def
  by (auto split: prod.splits sum.splits py_exception.splits)

lemma set_issue_due_date_calls:
  "calls (snd (set_issue_due_date env n d st)) =
     calls st @
       (case fetch_body env n st of
          (Inl e, st') \<Rightarrow> [view_cmd n]
        | (Inr body, st') \<Rightarrow>
            if py_in (due_marker d) body = Inr False
            then [view_cmd n, edit_body_cmd n (new_body env body d)]
            else [view_cmd n])"
  by (simp add: set_issue_due_date_snd due_date_try_calls)

lemma set_issue_due_date_present:
  assumes "fetch_body env n st = (Inr (JStr b), st')" and "str_contains (due_marker d) b"
  shows "set_issue_due_date env n d st = (Inr True, st')"
  using assms by (simp add: set_issue_due_date_def due_date_try_def)


lemma new_body_has_marker: "str_contains (due_marker d) (new_body env body d)"
proof (cases "truthy body")
  case True
  then have "new_body env body d = (format_value env body @ nl @ nl) @ due_marker d"
    by (simp add: new_body_def)
  then show ?thesis by (simp only: str_contains_suffix)
next
  case False
  then show ?thesis by (simp add: new_body_def str_contains_self)
qed

section \<open>The due-date marker\<close>

text \<open>
  Claim C1. For every issue and every date string, \<^const>\<open>set_issue_due_date\<close> first views the
  issue, and a body-edit command follows only when the marker \<open>**Due Date:** <date>\<close> is not
  found in the body it fetched. When the fetched body is a string that contains (or equals) the
  marker, the view is the only command issued and the operation returns \<^verbatim>\<open>True\<close>. The body
  an edit writes always contains the marker, so the next run finds it and edits nothing.
\<close>

theorem set_issue_due_date_edits_only_if_marker_absent:
  "(case fetch_body env issue_num st of
      (Inl e, st') \<Rightarrow>
        new_calls st (snd (set_issue_due_date env issue_num date_str st)) = [view_cmd issue_num]
    | (Inr body, st') \<Rightarrow>
        new_calls st (snd (set_issue_due_date env issue_num date_str st)) =
          (if py_in (due_marker date_str) body = Inr False
           then [view_cmd issue_num, edit_body_cmd issue_num (new_body env body date_str)]
           else [view_cmd issue_num]))
   \<and> (\<forall>b st'. fetch_body env issue_num st = (Inr (JStr b), st')
                \<and> str_contains (due_marker date_str) b \<longrightarrow>
          set_issue_due_date env issue_num date_str st = (Inr True, st')
          \<and> new_calls st st' = [view_cmd issue_num])
   \<and> (\<forall>body. str_contains (due_marker date_str) (new_body env body date_str))"
proof (intro conjI allI impI)
  show "case fetch_body env issue_num st of
      (Inl e, st') \<Rightarrow>
        new_calls st (snd (set_issue_due_date env issue_num date_str st)) = [view_cmd issue_num]
    | (Inr body, st') \<Rightarrow>
        new_calls st (snd (set_issue_due_date env issue_num date_str st)) =
          (if py_in (due_marker date_str) body = Inr False
           then [view_cmd issue_num, edit_body_cmd issue_num (new_body env body date_str)]
           else [view_cmd issue_num])"
    using set_issue_due_date_calls [of env issue_num date_str st]
    by (auto split: prod.splits sum.splits simp: new_calls_def)
next
  fix b st'
  assume h: "fetch_body env issue_num st = (Inr (JStr b), st') \<and> str_contains (due_marker date_str) b"
  then show "set_issue_due_date env issue_num date_str st = (Inr True, st')"
    by (simp add: set_issue_due_date_present)
  from h show "new_calls st st' = [view_cmd issue_num]"
    by (auto dest!: fetch_body_eq_calls simp: new_calls_def)
next
  fix body
  show "str_contains (due_marker date_str) (new_body env body date_str)"
    by (rule new_body_has_marker)
qed

text \<open>The scenario of the specification: the body of issue 31 already equals the marker.\<close>

theorem set_issue_due_date_edits_only_if_marker_absent_witness:
  "fetch_body (stub_env [(view_cmd 31, Exited 0 ''B**Due Date:** 2025-11-07'' [])]) 31 st0
     = (Inr (JStr ''**Due Date:** 2025-11-07''), st0\<lparr>calls := [view_cmd 31]\<rparr>)
   \<and> str_contains (due_marker ''2025-11-07'') ''**Due Date:** 2025-11-07''
   \<and> set_issue_due_date (stub_env [(view_cmd 31, Exited 0 ''B**Due Date:** 2025-11-07'' [])])
        31 ''2025-11-07'' st0 = (Inr True, st0\<lparr>calls := [view_cmd 31]\<rparr>)
   \<and> new_calls st0 (st0\<lparr>calls := [view_cmd 31]\<rparr>) = [view_cmd 31]"
proof -
  let ?env = "stub_env [(view_cmd 31, Exited 0 ''B**Due Date:** 2025-11-07'' [])]"
  have f: "fetch_body ?env 31 st0
             = (Inr (JStr ''**Due Date:** 2025-11-07''), st0\<lparr>calls := [view_cmd 31]\<rparr>)"
    by code_simp
  have c: "str_contains (due_marker ''2025-11-07'') ''**Due Date:** 2025-11-07''"
    by code_simp
  from set_issue_due_date_edits_only_if_marker_absent
         [where env = ?env and issue_num = 31 and st = st0 and date_str = "''2025-11-07''"] f c
  show ?thesis by blast
qed



section \<open>The loops of \<^verbatim>\<open>main\<close>\<close>

lemma issue_iteration_ok:
  "try_body env mmap pid t st = (Inr u, st') \<Longrightarrow>
     issue_iteration env mmap pid t (st, r) = (st', r\<lparr>processed := processed r + 1\<rparr>)"
  by (simp add: issue_iteration_def)

lemma issue_iteration_raised:
  "try_body env mmap pid t st = (Inl e, st') \<Longrightarrow>
     issue_iteration env mmap pid t (st, r) =
       (print st' ('' '' @ cross_mark @ '' Error: '' @ str_exc env e) nl,
        r\<lparr>errors := errors r @ [(fst t, str_exc env e)]\<rparr>)"
  by (simp add: issue_iteration_def)

text \<open>One tuple either adds one to \<open>processed\<close> or one entry to \<open>errors\<close>.\<close>

lemma issue_iteration_counts:
  "snd (issue_iteration env mmap pid t (st, r)) =
     (if isl (fst (try_body env mmap pid t st))
      then r\<lparr>errors := errors r @ [(fst t, str_exc env (projl (fst (try_body env mmap pid t st))))]\<rparr>
      else r\<lparr>processed := processed r + 1\<rparr>)"
  by (cases "try_body env mmap pid t st") (auto simp: issue_iteration_def split: sum.splits)

lemma issues_loop_counts:
  "processed (snd (issues_loop env mmap pid ts acc)) + int (length (errors (snd (issues_loop env mmap pid ts acc))))
     = processed (snd acc) + int (length (errors (snd acc))) + int (length ts)
   \<and> total_issues (snd (issues_loop env mmap pid ts acc)) = total_issues (snd acc)"
proof (induction ts arbitrary: acc)
  case Nil
  then show ?case by simp
next
  case (Cons t ts)
  obtain st r where acc: "acc = (st, r)" by (cases acc)
  have step: "processed (snd (issue_iteration env mmap pid t acc))
                + int (length (errors (snd (issue_iteration env mmap pid t acc))))
              = processed r + int (length (errors r)) + 1
            \<and> total_issues (snd (issue_iteration env mmap pid t acc)) = total_issues r"
    unfolding acc issue_iteration_counts by simp
  show ?case
    using Cons.IH [of "issue_iteration env mmap pid t acc"] step acc by simp
qed

text \<open>When the outcome of a tuple does not depend on the state, the loop counts the tuples that
  succeed and records the others, in order.\<close>

lemma issues_loop_fails:
  assumes "\<forall>t \<in> set ts. \<forall>st. isl (fst (try_body env mmap pid t st)) = fails t"
  shows "processed (snd (issues_loop env mmap pid ts acc))
           = processed (snd acc) + int (length (filter (\<lambda>t. \<not> fails t) ts))
       \<and> map fst (errors (snd (issues_loop env mmap pid ts acc)))
           = map fst (errors (snd acc)) @ map fst (filter fails ts)"
  using assms
proof (induction ts arbitrary: acc)
  case Nil
  then show ?case by simp
next
  case (Cons t ts)
  obtain st r where acc: "acc = (st, r)" by (cases acc)
  have t: "isl (fst (try_body env mmap pid t st)) = fails t"
    using Cons.prems by simp
  have rest: "\<forall>t \<in> set ts. \<forall>st. isl (fst (try_body env mmap pid t st)) = fails t"
    using Cons.prems by simp
  have step: "processed (snd (issue_iteration env mmap pid t acc))
                = processed r + (if fails t then 0 else 1)
            \<and> map fst (errors (snd (issue_iteration env mmap pid t acc)))
                = map fst (errors r) @ (if fails t then [fst t] else [])"
    unfolding acc issue_iteration_counts t by simp
  show ?case
    using Cons.IH [OF rest, of "issue_iteration env mmap pid t acc"] step acc by simp
qed

lemma project_names_map_of:
  assumes "project_names pmap pn = name # others"
  shows "\<exists>p. map_of pmap name = Some p"
proof -
  have "name \<in> set (project_names pmap pn)" using assms by simp
  then have "name \<in> fst ` set pmap" by (auto simp: project_names_def)
  then show ?thesis by (metis domD dom_map_of_conv_image_fst)
qed

lemma projects_loop_resolvable:
  assumes "projects_resolvable pmap asg"
  shows "\<exists>r st'. projects_loop env mmap pmap asg acc = (Inr r, st')
           \<and> processed r + int (length (errors r))
               = processed (snd acc) + int (length (errors (snd acc))) + int (length (all_tuples asg))
           \<and> total_issues r = total_issues (snd acc)"
  using assms
proof (induction asg arbitrary: acc)
  case Nil
  then show ?case by (simp add: all_tuples_def)
next
  case (Cons a asg)
  obtain pn issues where a: "a = (pn, issues)" by (cases a)
  from Cons.prems a obtain name others where names: "project_names pmap pn = name # others"
    by (cases "project_names pmap pn") (auto simp: projects_resolvable_def)
  then obtain p where p: "map_of pmap name = Some p"
    using project_names_map_of by blast
  have rest: "projects_resolvable pmap asg"
    using Cons.prems by (simp add: projects_resolvable_def)
  define st1 where "st1 = print (fst acc)
      (nl @ ''Processing '' @ name @ '' ('' @ str_int (int (length issues)) @ '' issues)...'') nl"
  define acc' where "acc' = issues_loop env mmap (ident p) issues (st1, snd acc)"
  have unfold: "projects_loop env mmap pmap (a # asg) acc = projects_loop env mmap pmap asg acc'"
    by (simp add: a names p acc'_def st1_def Let_def)
  have inner: "processed (snd acc') + int (length (errors (snd acc')))
                 = processed (snd acc) + int (length (errors (snd acc))) + int (length issues)
               \<and> total_issues (snd acc') = total_issues (snd acc)"
    unfolding acc'_def using issues_loop_counts [of env mmap "ident p" issues "(st1, snd acc)"] by simp
  from Cons.IH [OF rest, of acc'] obtain r st' where
    r: "projects_loop env mmap pmap asg acc' = (Inr r, st')"
       "processed r + int (length (errors r))
          = processed (snd acc') + int (length (errors (snd acc'))) + int (length (all_tuples asg))"
       "total_issues r = total_issues (snd acc')"
    by blast
  have "length (all_tuples (a # asg)) = length issues + length (all_tuples asg)"
    by (simp add: all_tuples_def a)
  with r inner unfold show ?case by simp
qed

lemma projects_loop_fails:
  assumes "projects_resolvable pmap asg"
    and "\<forall>t \<in> set (all_tuples asg). \<forall>pid st. isl (fst (try_body env mmap pid t st)) = fails t"
  shows "\<exists>r st'. projects_loop env mmap pmap asg acc = (Inr r, st')
           \<and> processed r = processed (snd acc) + int (length (filter (\<lambda>t. \<not> fails t) (all_tuples asg)))
           \<and> map fst (errors r) = map fst (errors (snd acc)) @ map fst (filter fails (all_tuples asg))"
  using assms
proof (induction asg arbitrary: acc)
  case Nil
  then show ?case by (simp add: all_tuples_def)
next
  case (Cons a asg)
  obtain pn issues where a: "a = (pn, issues)" by (cases a)
  from Cons.prems(1) a obtain name others where names: "project_names pmap pn = name # others"
    by (cases "project_names pmap pn") (auto simp: projects_resolvable_def)
  then obtain p where p: "map_of pmap name = Some p"
    using project_names_map_of by blast
  have rest: "projects_resolvable pmap asg"
    using Cons.prems(1) by (simp add: projects_resolvable_def)
  have tuples: "all_tuples (a # asg) = issues @ all_tuples asg"
    by (simp add: all_tuples_def a)
  have det_here: "\<forall>t \<in> set issues. \<forall>st. isl (fst (try_body env mmap (ident p) t st)) = fails t"
    using Cons.prems(2) tuples by simp
  have det_rest: "\<forall>t \<in> set (all_tuples asg). \<forall>pid st. isl (fst (try_body env mmap pid t st)) = fails t"
    using Cons.prems(2) tuples by simp
  define st1 where "st1 = print (fst acc)
      (nl @ ''Processing '' @ name @ '' ('' @ str_int (int (length issues)) @ '' issues)...'') nl"
  define acc' where "acc' = issues_loop env mmap (ident p) issues (st1, snd acc)"
  have unfold: "projects_loop env mmap pmap (a # asg) acc = projects_loop env mmap pmap asg acc'"
    by (simp add: a names p acc'_def st1_def Let_def)
  have inner: "processed (snd acc') = processed (snd acc) + int (length (filter (\<lambda>t. \<not> fails t) issues))
               \<and> map fst (errors (snd acc')) = map fst (errors (snd acc)) @ map fst (filter fails issues)"
    unfolding acc'_def
    using issues_loop_fails [OF det_here, of "(st1, snd acc)"] by simp
  from Cons.IH [OF rest det_rest, of acc'] obtain r st' where
    r: "projects_loop env mmap pmap asg acc' = (Inr r, st')"
       "processed r = processed (snd acc') + int (length (filter (\<lambda>t. \<not> fails t) (all_tuples asg)))"
       "map fst (errors r) = map fst (errors (snd acc')) @ map fst (filter fails (all_tuples asg))"
    by blast
  from r inner unfold tuples show ?case by simp
qed

lemma count_total_all_tuples: "count_total asg = int (length (all_tuples asg))"
  by (induction asg) (auto simp: count_total_def all_tuples_def)

lemma run_main_Inr:
  assumes "projects_loop env mmap pmap asg
             (st, \<lparr>processed = 0, total_issues = count_total asg, errors = []\<rparr>) = (Inr r, st')"
  shows "\<exists>st''. run_main env mmap pmap asg st = (Inr r, st'')
           \<and> (\<exists>pre post. out st'' = pre @ summary_line r @ nl @ post)"
proof -
  define st1 where "st1 = print st' (nl @ nl @ summary_line r) nl"
  have o1: "out st1 = (out st' @ nl @ nl) @ summary_line r @ nl @ []"
    by (simp add: st1_def print_def)
  have growth: "\<exists>post. out (print_errors s es) = out s @ post" for s :: "'a state" and es
  proof (induction es arbitrary: s)
    case Nil
    then show ?case by simp
  next
    case (Cons e es)
    obtain n msg where e: "e = (n, msg)" by (cases e)
    from Cons [of "print s (''  Issue #'' @ str_int n @ '': '' @ msg) nl"]
    show ?case by (auto simp: e print_def)
  qed
  show ?thesis
  proof (cases "errors r = []")
    case True
    then have "run_main env mmap pmap asg st = (Inr r, st1)"
      using assms by (simp add: run_main_def st1_def Let_def)
    with o1 show ?thesis by blast
  next
    case False
    define st2 where "st2 = print st1 (nl @ ''Errors ('' @ str_int (int (length (errors r))) @ ''):'') nl"
    have run: "run_main env mmap pmap asg st = (Inr r, print_errors st2 (errors r))"
      using assms False by (simp add: run_main_def st1_def st2_def Let_def)
    obtain post where "out (print_errors st2 (errors r)) = out st2 @ post"
      using growth by blast
    then have "out (print_errors st2 (errors r))
                 = (out st' @ nl @ nl) @ summary_line r @ nl @
                   ((nl @ ''Errors ('' @ str_int (int (length (errors r))) @ ''):'') @ nl @ post)"
      by (simp add: st2_def st1_def print_def)
    with run show ?thesis by blast
  qed
qed

lemma run_main_no_errors:
  assumes "projects_loop env mmap pmap asg
             (st, \<lparr>processed = 0, total_issues = count_total asg, errors = []\<rparr>) = (Inr r, st')"
    and "errors r = []"
  shows "run_main env mmap pmap asg st = (Inr r, print st' (nl @ nl @ summary_line r) nl)"
  using assms by (simp add: run_main_def Let_def)

lemma run_main_from_loop:
  assumes "run_main env mmap pmap asg st = (Inr r, st'')"
  shows "\<exists>st'. projects_loop env mmap pmap asg
                  (st, \<lparr>processed = 0, total_issues = count_total asg, errors = []\<rparr>) = (Inr r, st')"
  using assms by (auto simp: run_main_def Let_def split: prod.splits sum.splits)

lemma projects_loop_Inr_resolvable:
  "projects_loop env mmap pmap asg acc = (Inr r, st') \<Longrightarrow> projects_resolvable pmap asg"
proof (induction asg arbitrary: acc)
  case Nil
  then show ?case by (simp add: projects_resolvable_def)
next
  case (Cons a asg)
  obtain pn issues where a: "a = (pn, issues)" by (cases a)
  from Cons.prems a obtain name others where names: "project_names pmap pn = name # others"
    by (cases "project_names pmap pn") auto
  then obtain p where p: "map_of pmap name = Some p"
    using project_names_map_of by blast
  define acc' where "acc' = issues_loop env mmap (ident p) issues
      (print (fst acc)
         (nl @ ''Processing '' @ name @ '' ('' @ str_int (int (length issues)) @ '' issues)...'') nl,
       snd acc)"
  from Cons.prems have "projects_loop env mmap pmap asg acc' = (Inr r, st')"
    by (simp add: a names p Let_def acc'_def)
  then have "projects_resolvable pmap asg" by (rule Cons.IH)
  with names show ?case by (simp add: projects_resolvable_def a)
qed

lemma run_main_resolvable:
  "run_main env mmap pmap asg st = (Inr r, st'') \<Longrightarrow> projects_resolvable pmap asg"
  using run_main_from_loop projects_loop_Inr_resolvable by blast

lemma run_main_returns:
  assumes "projects_resolvable pmap asg"
  shows "\<exists>r st'. run_main env mmap pmap asg st = (Inr r, st')"
proof -
  from projects_loop_resolvable [OF assms] obtain r st' where
    "projects_loop env mmap pmap asg
       (st, \<lparr>processed = 0, total_issues = count_total asg, errors = []\<rparr>) = (Inr r, st')"
    by blast
  from run_main_Inr [OF this] show ?thesis by blast
qed

text \<open>A lookup command that does not exit with status \<open>0\<close> makes the whole \<^verbatim>\<open>try\<close> body raise.\<close>

lemma subprocess_run_not_ok:
  assumes "\<forall>stdout stderr. fst (run env cmd (world st)) \<noteq> Exited 0 stdout stderr"
  shows "isl (fst (subprocess_run env cmd st))"
proof (cases "run env cmd (world st)")
  case (Pair oc w')
  with assms show ?thesis
    by (cases oc) (auto simp: subprocess_run_def Let_def)
qed

lemma get_issue_node_id_not_ok:
  assumes "\<forall>stdout stderr. fst (run env (lookup_cmd n) (world st)) \<noteq> Exited 0 stdout stderr"
  shows "isl (fst (get_issue_node_id env n st))"
  using subprocess_run_not_ok [OF assms]
  by (cases "subprocess_run env (lookup_cmd n) st")
     (auto simp: get_issue_node_id_def split: sum.splits)

lemma try_body_lookup_raises:
  assumes "isl (fst (get_issue_node_id env (fst t) (print st (''  Issue #'' @ str_int (fst t) @ ''...'') '' '')))"
  shows "isl (fst (try_body env mmap pid t st))"
proof -
  obtain n ph m d where t: "t = (n, ph, m, d)" by (cases t)
  show ?thesis
    using assms unfolding t
    by (cases "get_issue_node_id env n (print st (''  Issue #'' @ str_int n @ ''...'') '' '')")
       (auto simp: try_body_def Let_def split: sum.splits)
qed

lemma try_body_lookup_not_ok:
  assumes "\<forall>w stdout stderr. fst (run env (lookup_cmd (fst t)) w) \<noteq> Exited 0 stdout stderr"
  shows "isl (fst (try_body env mmap pid t st))"
  by (rule try_body_lookup_raises, rule get_issue_node_id_not_ok) (use assms in simp)

section \<open>Failures of single tuples\<close>

text \<open>An exception of one step ends the \<^verbatim>\<open>try\<close> body in the state that step left: no later
  command of the tuple is issued and nothing more is printed.\<close>

lemma try_body_lookup_raised:
  assumes "get_issue_node_id env n (print s (''  Issue #'' @ str_int n @ ''...'') '' '') = (Inl e, s1)"
  shows "try_body env mmap pid (n, ph, m, d) s = (Inl e, s1)"
    and "new_calls s s1 = [lookup_cmd n]"
proof -
  show "try_body env mmap pid (n, ph, m, d) s = (Inl e, s1)"
    using assms by (simp add: try_body_def)
  show "new_calls s s1 = [lookup_cmd n]"
    using get_issue_node_id_eq_calls [OF assms] by (simp add: new_calls_def print_def)
qed

lemma try_body_add_raised:
  assumes "get_issue_node_id env n (print s (''  Issue #'' @ str_int n @ ''...'') '' '') = (Inr nid, s1)"
    and "add_issue_to_project env pid nid s1 = (Inl e, s2)"
  shows "try_body env mmap pid (n, ph, m, d) s = (Inl e, s2)"
    and "new_calls s s2 = [lookup_cmd n, add_cmd pid (format_value env nid)]"
proof -
  show "try_body env mmap pid (n, ph, m, d) s = (Inl e, s2)"
    using assms by (simp add: try_body_def)
  show "new_calls s s2 = [lookup_cmd n, add_cmd pid (format_value env nid)]"
    using get_issue_node_id_eq_calls [OF assms(1)] add_issue_to_project_eq_calls [OF assms(2)]
    by (simp add: new_calls_def print_def)
qed

lemma try_body_milestone_unknown:
  assumes "get_issue_node_id env n (print s (''  Issue #'' @ str_int n @ ''...'') '' '') = (Inr nid, s1)"
    and "add_issue_to_project env pid nid s1 = (Inr item_id, s2)"
    and "s3 = (if truthy item_id then print s2 ''added to project'' '', ''
                   else print s2 ''already in project'' '', '')"
    and "map_of mmap m = None"
  shows "try_body env mmap pid (n, ph, m, d) s = (Inl (KeyError m), s3)"
    and "new_calls s s3 = [lookup_cmd n, add_cmd pid (format_value env nid)]"
proof -
  show "try_body env mmap pid (n, ph, m, d) s = (Inl (KeyError m), s3)"
    using assms(1,2,4) unfolding assms(3) by (simp add: try_body_def)
  show "new_calls s s3 = [lookup_cmd n, add_cmd pid (format_value env nid)]"
    using get_issue_node_id_eq_calls [OF assms(1)] add_issue_to_project_eq_calls [OF assms(2)]
    unfolding assms(3) by (simp add: new_calls_def print_def)
qed

lemma try_body_milestone_raised:
  assumes "get_issue_node_id env n (print s (''  Issue #'' @ str_int n @ ''...'') '' '') = (Inr nid, s1)"
    and "add_issue_to_project env pid nid s1 = (Inr item_id, s2)"
    and "s3 = (if truthy item_id then print s2 ''added to project'' '', ''
                   else print s2 ''already in project'' '', '')"
    and "map_of mmap m = Some k"
    and "set_issue_milestone env n k s3 = (Inl e, s4)"
  shows "try_body env mmap pid (n, ph, m, d) s = (Inl e, s4)"
    and "new_calls s s4 = [lookup_cmd n, add_cmd pid (format_value env nid), milestone_cmd n k]"
proof -
  show "try_body env mmap pid (n, ph, m, d) s = (Inl e, s4)"
    using assms(1,2,4) assms(5) [unfolded assms(3)] by (simp add: try_body_def)
  show "new_calls s s4 = [lookup_cmd n, add_cmd pid (format_value env nid), milestone_cmd n k]"
    using get_issue_node_id_eq_calls [OF assms(1)] add_issue_to_project_eq_calls [OF assms(2)]
          set_issue_milestone_eq_calls [OF assms(5)]
    unfolding assms(3) by (simp add: new_calls_def print_def)
qed

lemma try_body_due_date_raised:
  assumes "get_issue_node_id env n (print s (''  Issue #'' @ str_int n @ ''...'') '' '') = (Inr nid, s1)"
    and "add_issue_to_project env pid nid s1 = (Inr item_id, s2)"
    and "s3 = (if truthy item_id then print s2 ''added to project'' '', ''
                   else print s2 ''already in project'' '', '')"
    and "map_of mmap m = Some k"
    and "set_issue_milestone env n k s3 = (Inr m_ok, s4)"
    and "s5 = (if m_ok then print s4 ''milestone set'' '', '' else s4)"
    and "set_issue_due_date env n d s5 = (Inl e, s6)"
  shows "try_body env mmap pid (n, ph, m, d) s = (Inl e, s6)"
  using assms(1,2,4) assms(5) [unfolded assms(3)] assms(7) [unfolded assms(6)]
  by (simp add: try_body_def)

text \<open>
  Claim C3, as it holds. For every table whose project numbers all occur in the project map
  and for every behaviour of the external command: \<^verbatim>\<open>main\<close> returns, so the exit status is
  \<open>0\<close>; an exception raised in the \<^verbatim>\<open>try\<close> body of one tuple is recorded as
  \<open>(issue number, message)\<close> at the end of the failure list and the loop goes on with the next
  tuple; when every lookup of the table fails, nothing is processed and every tuple is in the
  failure list. The exception of a step (the lookup, the add, the milestone lookup, the
  milestone command, the due date) ends the \<^verbatim>\<open>try\<close> body in the state that step left, so the
  commands issued for the tuple are those up to the raising step and no more.
\<close>

theorem run_completes_and_records_failures:
  assumes "projects_resolvable pmap asg"
  shows "(\<exists>r st'. run_main env mmap pmap asg st = (Inr r, st'))
     \<and> exit_status (run_main env mmap pmap asg st) = 0
     \<and> (\<forall>pid t s r e s'. try_body env mmap pid t s = (Inl e, s') \<longrightarrow>
           issue_iteration env mmap pid t (s, r) =
             (print s' ('' '' @ cross_mark @ '' Error: '' @ str_exc env e) nl,
              r\<lparr>errors := errors r @ [(fst t, str_exc env e)]\<rparr>))
     \<and> (\<forall>pid t ts acc. issues_loop env mmap pid (t # ts) acc =
           issues_loop env mmap pid ts (issue_iteration env mmap pid t acc))
     \<and> ((\<forall>t \<in> set (all_tuples asg). \<forall>w stdout stderr.
            fst (run env (lookup_cmd (fst t)) w) \<noteq> Exited 0 stdout stderr) \<longrightarrow>
          (\<exists>r st'. run_main env mmap pmap asg st = (Inr r, st') \<and> processed r = 0
             \<and> map fst (errors r) = map fst (all_tuples asg)))
     \<and> (\<forall>pid n ph m d s e s1.
           get_issue_node_id env n (print s (''  Issue #'' @ str_int n @ ''...'') '' '') = (Inl e, s1)
           \<longrightarrow> try_body env mmap pid (n, ph, m, d) s = (Inl e, s1)
               \<and> new_calls s s1 = [lookup_cmd n])
     \<and> (\<forall>pid n ph m d s nid s1 e s2.
           get_issue_node_id env n (print s (''  Issue #'' @ str_int n @ ''...'') '' '') = (Inr nid, s1)
           \<and> add_issue_to_project env pid nid s1 = (Inl e, s2)
           \<longrightarrow> try_body env mmap pid (n, ph, m, d) s = (Inl e, s2)
               \<and> new_calls s s2 = [lookup_cmd n, add_cmd pid (format_value env nid)])
     \<and> (\<forall>pid n ph m d s nid s1 item_id s2 s3.
           get_issue_node_id env n (print s (''  Issue #'' @ str_int n @ ''...'') '' '') = (Inr nid, s1)
           \<and> add_issue_to_project env pid nid s1 = (Inr item_id, s2)
           \<and> s3 = (if truthy item_id then print s2 ''added to project'' '', ''
                   else print s2 ''already in project'' '', '')
           \<and> map_of mmap m = None
           \<longrightarrow> try_body env mmap pid (n, ph, m, d) s = (Inl (KeyError m), s3)
               \<and> new_calls s s3 = [lookup_cmd n, add_cmd pid (format_value env nid)])
     \<and> (\<forall>pid n ph m d s nid s1 item_id s2 s3 k e s4.
           get_issue_node_id env n (print s (''  Issue #'' @ str_int n @ ''...'') '' '') = (Inr nid, s1)
           \<and> add_issue_to_project env pid nid s1 = (Inr item_id, s2)
           \<and> s3 = (if truthy item_id then print s2 ''added to project'' '', ''
                   else print s2 ''already in project'' '', '')
           \<and> map_of mmap m = Some k
           \<and> set_issue_milestone env n k s3 = (Inl e, s4)
           \<longrightarrow> try_body env mmap pid (n, ph, m, d) s = (Inl e, s4)
               \<and> new_calls s s4 = [lookup_cmd n, add_cmd pid (format_value env nid), milestone_cmd n k])
     \<and> (\<forall>pid n ph m d s nid s1 item_id s2 s3 k m_ok s4 s5 e s6.
           get_issue_node_id env n (print s (''  Issue #'' @ str_int n @ ''...'') '' '') = (Inr nid, s1)
           \<and> add_issue_to_project env pid nid s1 = (Inr item_id, s2)
           \<and> s3 = (if truthy item_id then print s2 ''added to project'' '', ''
                   else print s2 ''already in project'' '', '')
           \<and> map_of mmap m = Some k
           \<and> set_issue_milestone env n k s3 = (Inr m_ok, s4)
           \<and> s5 = (if m_ok then print s4 ''milestone set'' '', '' else s4)
           \<and> set_issue_due_date env n d s5 = (Inl e, s6)
           \<longrightarrow> try_body env mmap pid (n, ph, m, d) s = (Inl e, s6))"
proof (intro conjI allI impI)
  from run_main_returns [OF assms]
  show ret: "\<exists>r st'. run_main env mmap pmap asg st = (Inr r, st')" .
  then show "exit_status (run_main env mmap pmap asg st) = 0"
    by (auto simp: exit_status_def)
next
  fix pid t s r e s'
  assume "try_body env mmap pid t s = (Inl e, s')"
  then show "issue_iteration env mmap pid t (s, r) =
             (print s' ('' '' @ cross_mark @ '' Error: '' @ str_exc env e) nl,
              r\<lparr>errors := errors r @ [(fst t, str_exc env e)]\<rparr>)"
    by (rule issue_iteration_raised)
next
  fix pid t ts acc
  show "issues_loop env mmap pid (t # ts) acc =
          issues_loop env mmap pid ts (issue_iteration env mmap pid t acc)"
    by simp
next
  assume down: "\<forall>t \<in> set (all_tuples asg). \<forall>w stdout stderr.
            fst (run env (lookup_cmd (fst t)) w) \<noteq> Exited 0 stdout stderr"
  have det: "\<forall>t \<in> set (all_tuples asg). \<forall>pid s. isl (fst (try_body env mmap pid t s)) = True"
  proof (intro ballI allI)
    fix t pid s
    assume "t \<in> set (all_tuples asg)"
    with down have "\<forall>w stdout stderr. fst (run env (lookup_cmd (fst t)) w) \<noteq> Exited 0 stdout stderr"
      by blast
    then show "isl (fst (try_body env mmap pid t s)) = True"
      by (simp add: try_body_lookup_not_ok)
  qed
  from projects_loop_fails [OF assms, where fails = "\<lambda>t. True", OF det] obtain r st' where
    loop: "projects_loop env mmap pmap asg
             (st, \<lparr>processed = 0, total_issues = count_total asg, errors = []\<rparr>) = (Inr r, st')"
      and "processed r = 0" and "map fst (errors r) = map fst (all_tuples asg)"
    by fastforce
  with run_main_Inr [OF loop]
  show "\<exists>r st'. run_main env mmap pmap asg st = (Inr r, st') \<and> processed r = 0
             \<and> map fst (errors r) = map fst (all_tuples asg)"
    by blast
next
  fix pid n ph m d s e s1
  assume h: "get_issue_node_id env n (print s (''  Issue #'' @ str_int n @ ''...'') '' '') = (Inl e, s1)"
  from h have p1: "get_issue_node_id env n (print s (''  Issue #'' @ str_int n @ ''...'') '' '') = (Inl e, s1)" by blast
  from try_body_lookup_raised(1) [OF p1]
  show "try_body env mmap pid (n, ph, m, d) s = (Inl e, s1)" .
  from try_body_lookup_raised(2) [OF p1]
  show "new_calls s s1 = [lookup_cmd n]" .
next
  fix pid n ph m d s nid s1 e s2
  assume h: "get_issue_node_id env n (print s (''  Issue #'' @ str_int n @ ''...'') '' '') = (Inr nid, s1)
             \<and> add_issue_to_project env pid nid s1 = (Inl e, s2)"
  from h have p1: "get_issue_node_id env n (print s (''  Issue #'' @ str_int n @ ''...'') '' '') = (Inr nid, s1)" by blast
  from h have p2: "add_issue_to_project env pid nid s1 = (Inl e, s2)" by blast
  from try_body_add_raised(1) [OF p1 p2]
  show "try_body env mmap pid (n, ph, m, d) s = (Inl e, s2)" .
  from try_body_add_raised(2) [OF p1 p2]
  show "new_calls s s2 = [lookup_cmd n, add_cmd pid (format_value env nid)]" .
next
  fix pid n ph m d s nid s1 item_id s2 s3
  assume h: "get_issue_node_id env n (print s (''  Issue #'' @ str_int n @ ''...'') '' '') = (Inr nid, s1)
             \<and> add_issue_to_project env pid nid s1 = (Inr item_id, s2)
             \<and> s3 = (if truthy item_id then print s2 ''added to project'' '', ''
                   else print s2 ''already in project'' '', '')
             \<and> map_of mmap m = None"
  from h have p1: "get_issue_node_id env n (print s (''  Issue #'' @ str_int n @ ''...'') '' '') = (Inr nid, s1)" by blast
  from h have p2: "add_issue_to_project env pid nid s1 = (Inr item_id, s2)" by blast
  from h have p3: "s3 = (if truthy item_id then print s2 ''added to project'' '', ''
                   else print s2 ''already in project'' '', '')" by blast
  from h have p4: "map_of mmap m = None" by blast
  from try_body_milestone_unknown(1) [OF p1 p2 p3 p4]
  show "try_body env mmap pid (n, ph, m, d) s = (Inl (KeyError m), s3)" .
  from try_body_milestone_unknown(2) [OF p1 p2 p3 p4]
  show "new_calls s s3 = [lookup_cmd n, add_cmd pid (format_value env nid)]" .
next
  fix pid n ph m d s nid s1 item_id s2 s3 k e s4
  assume h: "get_issue_node_id env n (print s (''  Issue #'' @ str_int n @ ''...'') '' '') = (Inr nid, s1)
             \<and> add_issue_to_project env pid nid s1 = (Inr item_id, s2)
             \<and> s3 = (if truthy item_id then print s2 ''added to project'' '', ''
                   else print s2 ''already in project'' '', '')
             \<and> map_of mmap m = Some k
             \<and> set_issue_milestone env n k s3 = (Inl e, s4)"
  from h have p1: "get_issue_node_id env n (print s (''  Issue #'' @ str_int n @ ''...'') '' '') = (Inr nid, s1)" by blast
  from h have p2: "add_issue_to_project env pid nid s1 = (Inr item_id, s2)" by blast
  from h have p3: "s3 = (if truthy item_id then print s2 ''added to project'' '', ''
                   else print s2 ''already in project'' '', '')" by blast
  from h have p4: "map_of mmap m = Some k" by blast
  from h have p5: "set_issue_milestone env n k s3 = (Inl e, s4)" by blast
  from try_body_milestone_raised(1) [OF p1 p2 p3 p4 p5]
  show "try_body env mmap pid (n, ph, m, d) s = (Inl e, s4)" .
  from try_body_milestone_raised(2) [OF p1 p2 p3 p4 p5]
  show "new_calls s s4 = [lookup_cmd n, add_cmd pid (format_value env nid), milestone_cmd n k]" .
next
  fix pid n ph m d s nid s1 item_id s2 s3 k m_ok s4 s5 e s6
  assume h: "get_issue_node_id env n (print s (''  Issue #'' @ str_int n @ ''...'') '' '') = (Inr nid, s1)
             \<and> add_issue_to_project env pid nid s1 = (Inr item_id, s2)
             \<and> s3 = (if truthy item_id then print s2 ''added to project'' '', ''
                   else print s2 ''already in project'' '', '')
             \<and> map_of mmap m = Some k
             \<and> set_issue_milestone env n k s3 = (Inr m_ok, s4)
             \<and> s5 = (if m_ok then print s4 ''milestone set'' '', '' else s4)
             \<and> set_issue_due_date env n d s5 = (Inl e, s6)"
  from h have p1: "get_issue_node_id env n (print s (''  Issue #'' @ str_int n @ ''...'') '' '') = (Inr nid, s1)" by blast
  from h have p2: "add_issue_to_project env pid nid s1 = (Inr item_id, s2)" by blast
  from h have p3: "s3 = (if truthy item_id then print s2 ''added to project'' '', ''
                   else print s2 ''already in project'' '', '')" by blast
  from h have p4: "map_of mmap m = Some k" by blast
  from h have p5: "set_issue_milestone env n k s3 = (Inr m_ok, s4)" by blast
  from h have p6: "s5 = (if m_ok then print s4 ''milestone set'' '', '' else s4)" by blast
  from h have p7: "set_issue_due_date env n d s5 = (Inl e, s6)" by blast
  from try_body_due_date_raised [OF p1 p2 p3 p4 p5 p6 p7]
  show "try_body env mmap pid (n, ph, m, d) s = (Inl e, s6)" .
qed

text \<open>Two tuples of the static table, every lookup failing; and a tuple whose add command is
  refused: the lookup and the add are its only commands.\<close>

theorem run_completes_and_records_failures_witness:
  "projects_resolvable project_map [(2, [issue31, issue59])]
   \<and> exit_status (run_main (stub_env [(lookup_cmd 31, not_found), (lookup_cmd 59, not_found)])
        milestone_map project_map [(2, [issue31, issue59])] st0) = 0
   \<and> (\<exists>r st'. run_main (stub_env [(lookup_cmd 31, not_found), (lookup_cmd 59, not_found)])
        milestone_map project_map [(2, [issue31, issue59])] st0 = (Inr r, st')
        \<and> processed r = 0 \<and> map fst (errors r) = [31, 59])
   \<and> try_body
        (stub_env [(add_cmd ''PVT_kwHOABsZ684BHe6N'' ''I_node'', Exited 1 [] ''GraphQL: forbidden'')])
        milestone_map ''PVT_kwHOABsZ684BHe6N'' issue31 st0
      = (Inl (CalledProcessError (add_cmd ''PVT_kwHOABsZ684BHe6N'' ''I_node'') 1 ''GraphQL: forbidden''),
         \<lparr>world = (), calls = [lookup_cmd 31, add_cmd ''PVT_kwHOABsZ684BHe6N'' ''I_node''],
          out = ''  Issue #31... ''\<rparr>)"
proof -
  let ?env = "stub_env [(lookup_cmd 31, not_found), (lookup_cmd 59, not_found)]"
  let ?pid = "''PVT_kwHOABsZ684BHe6N''"
  let ?env2 = "stub_env [(add_cmd ?pid ''I_node'', Exited 1 [] ''GraphQL: forbidden'')]"
  let ?s1 = "\<lparr>world = (), calls = [lookup_cmd 31], out = ''  Issue #31... ''\<rparr>"
  let ?s2 = "\<lparr>world = (), calls = [lookup_cmd 31, add_cmd ?pid ''I_node''], out = ''  Issue #31... ''\<rparr>"
  have res: "projects_resolvable project_map [(2, [issue31, issue59])]"
    by code_simp
  have ne: "lookup_cmd 31 \<noteq> lookup_cmd 59"
    by code_simp
  have down: "\<forall>t \<in> set (all_tuples [(2, [issue31, issue59])]). \<forall>w stdout stderr.
            fst (run ?env (lookup_cmd (fst t)) w) \<noteq> Exited 0 stdout stderr"
    using ne by (simp add: all_tuples_def issue31_def issue59_def stub_env_def canned_def not_found_def)
  have tuples: "map fst (all_tuples [(2, [issue31, issue59])]) = [31, 59]"
    by (simp add: all_tuples_def issue31_def issue59_def)
  note inst = run_completes_and_records_failures
               [OF res, where env = ?env and mmap = milestone_map and st = st0]
  have 1: "exit_status (run_main ?env milestone_map project_map [(2, [issue31, issue59])] st0) = 0"
    by (rule inst [THEN conjunct2, THEN conjunct1])
  have 2: "\<exists>r st'. run_main ?env milestone_map project_map [(2, [issue31, issue59])] st0 = (Inr r, st')
        \<and> processed r = 0 \<and> map fst (errors r) = [31, 59]"
    using inst [THEN conjunct2, THEN conjunct2, THEN conjunct2, THEN conjunct2, THEN conjunct1,
                THEN mp, OF down]
    unfolding tuples .
  have h1: "get_issue_node_id ?env2 31 (print st0 (''  Issue #'' @ str_int 31 @ ''...'') '' '')
              = (Inr (JStr ''I_node''), ?s1)"
    by code_simp
  have h2: "add_issue_to_project ?env2 ?pid (JStr ''I_node'') ?s1
              = (Inl (CalledProcessError (add_cmd ?pid ''I_node'') 1 ''GraphQL: forbidden''), ?s2)"
    by code_simp
  note ab = run_completes_and_records_failures
              [OF res, where env = ?env2 and mmap = milestone_map and st = st0,
               THEN conjunct2, THEN conjunct2, THEN conjunct2, THEN conjunct2, THEN conjunct2,
               THEN conjunct2, THEN conjunct1, rule_format, OF conjI [OF h1 h2], THEN conjunct1]
  have 3: "try_body ?env2 milestone_map ?pid issue31 st0
      = (Inl (CalledProcessError (add_cmd ?pid ''I_node'') 1 ''GraphQL: forbidden''), ?s2)"
    unfolding issue31_def by (rule ab)
  from res 1 2 3 show ?thesis by blast
qed

text \<open>As stated for every table, the claim fails: a project number that the project map does
  not know makes \<^verbatim>\<open>main\<close> raise \<^verbatim>\<open>IndexError\<close> before the first tuple, outside every \<^verbatim>\<open>try\<close>.\<close>

theorem run_raises_on_unknown_project:
  "run_main (stub_env []) milestone_map project_map [(1, [issue31])] st0 = (Inl IndexError, st0)
   \<and> exit_status (run_main (stub_env []) milestone_map project_map [(1, [issue31])] st0) = 1"
  by code_simp

section \<open>The stub transport\<close>










section \<open>The counters at the end of a run\<close>


lemma run_main_end:
  assumes "run_main env mmap pmap asg st = (Inr r, st'')"
  shows "projects_resolvable pmap asg
     \<and> (\<exists>st'. projects_loop env mmap pmap asg
                 (st, \<lparr>processed = 0, total_issues = count_total asg, errors = []\<rparr>) = (Inr r, st')
              \<and> (errors r = [] \<longrightarrow> st'' = print st' (nl @ nl @ summary_line r) nl))
     \<and> processed r + int (length (errors r)) = total_issues r
     \<and> total_issues r = int (length (all_tuples asg))
     \<and> (\<exists>pre post. out st'' = pre @ summary_line r @ nl @ post)"
proof -
  let ?r0 = "\<lparr>processed = 0, total_issues = count_total asg, errors = []\<rparr>"
  from run_main_from_loop [OF assms] obtain st' where
    loop: "projects_loop env mmap pmap asg (st, ?r0) = (Inr r, st')" by blast
  have res: "projects_resolvable pmap asg" using assms by (rule run_main_resolvable)
  from projects_loop_resolvable [OF res, of env mmap "(st, ?r0)"] loop
  have counts: "processed r + int (length (errors r)) = int (length (all_tuples asg))"
               "total_issues r = count_total asg"
    by auto
  have fin: "errors r = [] \<longrightarrow> st'' = print st' (nl @ nl @ summary_line r) nl"
    using run_main_no_errors [OF loop] assms by auto
  from run_main_Inr [OF loop] assms
  have "\<exists>pre post. out st'' = pre @ summary_line r @ nl @ post" by auto
  with res loop fin counts show ?thesis
    by (auto simp: count_total_all_tuples)
qed




text \<open>
  Claim C8. At the end of every run \<open>processed\<close> plus the length of the failure list is
  \<open>total\<close>, the number of tuples of the table; one tuple either adds one to \<open>processed\<close> or
  appends one entry for its issue to the failure list, never both and never neither. The run
  reaches its end whenever the project numbers of the table occur in the project map.
\<close>

theorem processed_plus_failures_is_total:
  "(\<forall>r st'. run_main env mmap pmap asg st = (Inr r, st') \<longrightarrow>
       processed r + int (length (errors r)) = total_issues r
     \<and> total_issues r = int (length (all_tuples asg)))
   \<and> (projects_resolvable pmap asg \<longrightarrow> (\<exists>r st'. run_main env mmap pmap asg st = (Inr r, st')))
   \<and> (\<forall>pid t s r.
        (processed (snd (issue_iteration env mmap pid t (s, r))) = processed r + 1
           \<and> errors (snd (issue_iteration env mmap pid t (s, r))) = errors r)
        \<noteq> (processed (snd (issue_iteration env mmap pid t (s, r))) = processed r
           \<and> (\<exists>msg. errors (snd (issue_iteration env mmap pid t (s, r))) = errors r @ [(fst t, msg)])))"
proof (intro conjI allI impI)
  fix r st'
  assume run: "run_main env mmap pmap asg st = (Inr r, st')"
  from run_main_end [OF run]
  show "processed r + int (length (errors r)) = total_issues r"
    and "total_issues r = int (length (all_tuples asg))"
    by blast+
next
  assume "projects_resolvable pmap asg"
  then show "\<exists>r st'. run_main env mmap pmap asg st = (Inr r, st')"
    by (rule run_main_returns)
next
  fix pid t s r
  show "(processed (snd (issue_iteration env mmap pid t (s, r))) = processed r + 1
           \<and> errors (snd (issue_iteration env mmap pid t (s, r))) = errors r)
        \<noteq> (processed (snd (issue_iteration env mmap pid t (s, r))) = processed r
           \<and> (\<exists>msg. errors (snd (issue_iteration env mmap pid t (s, r))) = errors r @ [(fst t, msg)]))"
    unfolding issue_iteration_counts by simp
qed

theorem processed_plus_failures_is_total_witness:
  "projects_resolvable project_map [(2, [issue31, issue59])]
   \<and> (\<exists>r st'. run_main (stub_env [(lookup_cmd 59, not_found)]) milestone_map project_map
                 [(2, [issue31, issue59])] st0 = (Inr r, st')
        \<and> processed r = 1 \<and> errors r = [(59, ''non-zero exit status'')] \<and> total_issues r = 2
        \<and> processed r + int (length (errors r)) = total_issues r)"
proof -
  let ?run = "run_main (stub_env [(lookup_cmd 59, not_found)]) milestone_map project_map
                 [(2, [issue31, issue59])] st0"
  have res: "projects_resolvable project_map [(2, [issue31, issue59])]"
    by code_simp
  have r: "fst ?run = Inr \<lparr>processed = 1, total_issues = 2, errors = [(59, ''non-zero exit status'')]\<rparr>"
    by code_simp
  from processed_plus_failures_is_total
         [where env = "stub_env [(lookup_cmd 59, not_found)]" and mmap = milestone_map
            and pmap = project_map and asg = "[(2, [issue31, issue59])]" and st = st0] res r
  show ?thesis by (cases ?run) auto
qed

section \<open>The steps of one tuple\<close>

lemma print_out: "out (print s text e) = out s @ text @ e"
  by (simp add: print_def)

lemma print_calls: "calls (print s text e) = calls s"
  by (simp add: print_def)

lemma print_world: "world (print s text e) = world s"
  by (simp add: print_def)

lemma set_issue_due_date_eq_out:
  "set_issue_due_date env n d s = (res, s') \<Longrightarrow> out s' = out s"
  using set_issue_due_date_snd [of env n d s] due_date_try_out [of env n d s] by simp

text \<open>
  Claim C2. When the add-to-project command exits non-zero and its standard error contains
  \<open>already exists\<close> or \<open>already added\<close> in any letter case, \<^const>\<open>add_issue_to_project\<close>
  raises nothing and returns \<^verbatim>\<open>None\<close>; the progress line says \<open>already in project\<close>, the
  milestone and due-date steps follow, and when these do not raise the tuple is counted as
  processed and the failure list stays as it was.
\<close>

theorem already_in_project_is_success:
  assumes "get_issue_node_id env n (print st (''  Issue #'' @ str_int n @ ''...'') '' '') = (Inr nid, st1)"
    and "run env (add_cmd pid (format_value env nid)) (world st1) = (Exited returncode stdout stderr, w2)"
    and "returncode \<noteq> 0"
    and "str_contains ''already exists'' (lower stderr) \<or> str_contains ''already added'' (lower stderr)"
    and "st2 = st1\<lparr>world := w2, calls := calls st1 @ [add_cmd pid (format_value env nid)]\<rparr>"
    and "map_of mmap m = Some k"
    and "set_issue_milestone env n k (print st2 ''already in project'' '', '') = (Inr m_ok, st4)"
    and "set_issue_due_date env n d (if m_ok then print st4 ''milestone set'' '', '' else st4) = (Inr d_ok, st6)"
  shows "add_issue_to_project env pid nid st1 = (Inr JNull, st2)
     \<and> issue_iteration env mmap pid (n, ph, m, d) (st, r) =
         (print (if d_ok then print st6 ''due date set'' [] else st6) ('' '' @ check_mark) nl,
          r\<lparr>processed := processed r + 1\<rparr>)
     \<and> out (fst (issue_iteration env mmap pid (n, ph, m, d) (st, r))) =
         out st @ ''  Issue #'' @ str_int n @ ''... '' @ ''already in project, '' @
         (if m_ok then ''milestone set, '' else []) @ (if d_ok then ''due date set'' else []) @
         '' '' @ check_mark @ nl"
proof -
  have add: "add_issue_to_project env pid nid st1 = (Inr JNull, st2)"
    using assms(2-5) by (auto simp: add_issue_to_project_def subprocess_run_def)
  have body: "try_body env mmap pid (n, ph, m, d) st =
                (Inr (), print (if d_ok then print st6 ''due date set'' [] else st6) ('' '' @ check_mark) nl)"
    using assms(1,6,7,8) add by (simp add: try_body_def)
  have iter: "issue_iteration env mmap pid (n, ph, m, d) (st, r) =
         (print (if d_ok then print st6 ''due date set'' [] else st6) ('' '' @ check_mark) nl,
          r\<lparr>processed := processed r + 1\<rparr>)"
    using body by (rule issue_iteration_ok)
  have o1: "out st1 = out st @ ''  Issue #'' @ str_int n @ ''... ''"
    using get_issue_node_id_eq_calls [OF assms(1)] by (simp add: print_out)
  have o2: "out st2 = out st1" using assms(5) by simp
  have o4: "out st4 = out st2 @ ''already in project, ''"
    using set_issue_milestone_eq_calls [OF assms(7)] by (simp add: print_out)
  have o6: "out st6 = out st4 @ (if m_ok then ''milestone set, '' else [])"
    using set_issue_due_date_eq_out [OF assms(8)] by (simp add: print_out)
  have "out (print (if d_ok then print st6 ''due date set'' [] else st6) ('' '' @ check_mark) nl) =
         out st @ ''  Issue #'' @ str_int n @ ''... '' @ ''already in project, '' @
         (if m_ok then ''milestone set, '' else []) @ (if d_ok then ''due date set'' else []) @
         '' '' @ check_mark @ nl"
    by (simp add: print_out o1 o2 o4 o6)
  with add iter show ?thesis by simp
qed

theorem already_in_project_is_success_witness:
  "str_contains ''already exists'' (lower ''GraphQL: Content Already Exists in this project'')
   \<and> issue_iteration
       (stub_env [(add_cmd ''PVT_kwHOABsZ684BHe6N'' ''I_node'',
                   Exited 1 [] ''GraphQL: Content Already Exists in this project'')])
       milestone_map ''PVT_kwHOABsZ684BHe6N'' issue31
       (st0, \<lparr>processed = 0, total_issues = 1, errors = []\<rparr>)
     = (\<lparr>world = (),
          calls = [lookup_cmd 31, add_cmd ''PVT_kwHOABsZ684BHe6N'' ''I_node'', milestone_cmd 31 2,
                   view_cmd 31, edit_body_cmd 31 ''**Due Date:** 2025-11-07''],
          out = ''  Issue #31... already in project, milestone set, due date set '' @ check_mark @ nl\<rparr>,
        \<lparr>processed = 1, total_issues = 1, errors = []\<rparr>)"
proof -
  let ?pid = "''PVT_kwHOABsZ684BHe6N''"
  let ?env = "stub_env [(add_cmd ?pid ''I_node'',
                         Exited 1 [] ''GraphQL: Content Already Exists in this project'')]"
  let ?s1 = "\<lparr>world = (), calls = [lookup_cmd 31], out = ''  Issue #31... ''\<rparr>"
  let ?s2 = "?s1\<lparr>world := (), calls := calls ?s1 @ [add_cmd ?pid (format_value ?env (JStr ''I_node''))]\<rparr>"
  let ?s4 = "\<lparr>world = (), calls = [lookup_cmd 31, add_cmd ?pid ''I_node'', milestone_cmd 31 2],
              out = ''  Issue #31... already in project, ''\<rparr>"
  let ?s6 = "\<lparr>world = (),
              calls = [lookup_cmd 31, add_cmd ?pid ''I_node'', milestone_cmd 31 2, view_cmd 31,
                       edit_body_cmd 31 ''**Due Date:** 2025-11-07''],
              out = ''  Issue #31... already in project, milestone set, ''\<rparr>"
  have h1: "get_issue_node_id ?env 31 (print st0 (''  Issue #'' @ str_int 31 @ ''...'') '' '')
              = (Inr (JStr ''I_node''), ?s1)"
    by code_simp
  have h2: "run ?env (add_cmd ?pid (format_value ?env (JStr ''I_node''))) (world ?s1)
              = (Exited 1 [] ''GraphQL: Content Already Exists in this project'', ())"
    by code_simp
  have h3: "(1::int) \<noteq> 0" by simp
  have h4: "str_contains ''already exists'' (lower ''GraphQL: Content Already Exists in this project'')"
    by code_simp
  have h6: "map_of milestone_map ''Security Fix'' = Some 2"
    by code_simp
  have h7: "set_issue_milestone ?env 31 2 (print ?s2 ''already in project'' '', '') = (Inr True, ?s4)"
    by code_simp
  have h8: "set_issue_due_date ?env 31 ''2025-11-07''
              (if True then print ?s4 ''milestone set'' '', '' else ?s4) = (Inr True, ?s6)"
    by code_simp
  have fin: "print (if True then print ?s6 ''due date set'' [] else ?s6) ('' '' @ check_mark) nl
      = \<lparr>world = (),
          calls = [lookup_cmd 31, add_cmd ?pid ''I_node'', milestone_cmd 31 2,
                   view_cmd 31, edit_body_cmd 31 ''**Due Date:** 2025-11-07''],
          out = ''  Issue #31... already in project, milestone set, due date set '' @ check_mark @ nl\<rparr>"
    by (simp add: print_def)
  from already_in_project_is_success
         [OF h1 h2 h3 disjI1 [OF h4] refl h6 h7 h8,
          where ph = "''Phase 1: Security''"
            and r = "\<lparr>processed = 0, total_issues = 1, errors = []\<rparr>"]
  show ?thesis
    unfolding fin using h4 by (simp add: issue31_def)
qed

text \<open>
  Claim C5, as it holds. When the milestone command exits non-zero, \<^const>\<open>set_issue_milestone\<close>
  returns \<^verbatim>\<open>False\<close> and the due-date step is attempted all the same: the view of the issue
  is the next command. The failure is recorded nowhere: the progress line merely lacks
  \<open>milestone set\<close>, the failure list receives nothing on its account, and the tuple is counted
  as processed when the due-date step does not raise.
\<close>

theorem milestone_failure_is_swallowed:
  assumes "get_issue_node_id env n (print st (''  Issue #'' @ str_int n @ ''...'') '' '') = (Inr nid, st1)"
    and "add_issue_to_project env pid nid st1 = (Inr item_id, st2)"
    and "st3 = (if truthy item_id then print st2 ''added to project'' '', ''
                else print st2 ''already in project'' '', '')"
    and "map_of mmap m = Some k"
    and "run env (milestone_cmd n k) (world st3) = (Exited returncode stdout stderr, w4)"
    and "returncode \<noteq> 0"
    and "st4 = st3\<lparr>world := w4, calls := calls st3 @ [milestone_cmd n k]\<rparr>"
  shows "set_issue_milestone env n k st3 = (Inr False, st4)
     \<and> (\<exists>rest. new_calls st (snd (try_body env mmap pid (n, ph, m, d) st)) =
           [lookup_cmd n, add_cmd pid (format_value env nid), milestone_cmd n k, view_cmd n] @ rest)
     \<and> (\<forall>d_ok st6. set_issue_due_date env n d st4 = (Inr d_ok, st6) \<longrightarrow>
           issue_iteration env mmap pid (n, ph, m, d) (st, r) =
             (print (if d_ok then print st6 ''due date set'' [] else st6) ('' '' @ check_mark) nl,
              r\<lparr>processed := processed r + 1\<rparr>))
     \<and> (\<forall>e st6. set_issue_due_date env n d st4 = (Inl e, st6) \<longrightarrow>
           snd (issue_iteration env mmap pid (n, ph, m, d) (st, r)) =
             r\<lparr>errors := errors r @ [(n, str_exc env e)]\<rparr>)"
proof -
  have ms: "set_issue_milestone env n k st3 = (Inr False, st4)"
    using assms(5-7) by (auto simp: set_issue_milestone_def subprocess_run_def)
  have body: "try_body env mmap pid (n, ph, m, d) st =
     (case set_issue_due_date env n d st4 of
        (Inl e, st6) \<Rightarrow> (Inl e, st6)
      | (Inr d_ok, st6) \<Rightarrow>
          (Inr (), print (if d_ok then print st6 ''due date set'' [] else st6) ('' '' @ check_mark) nl))"
    using assms(1,2,4) ms assms(3)
    by (simp add: try_body_def Let_def split: prod.splits sum.splits)
  have c1: "calls st1 = calls st @ [lookup_cmd n]"
    using get_issue_node_id_eq_calls [OF assms(1)] by (simp add: print_calls)
  have c2: "calls st2 = calls st1 @ [add_cmd pid (format_value env nid)]"
    using add_issue_to_project_eq_calls [OF assms(2)] by simp
  have c4: "calls st4 = calls st2 @ [milestone_cmd n k]"
    using assms(3,7) by (simp add: print_calls)
  obtain res st6 where dd: "set_issue_due_date env n d st4 = (res, st6)"
    by (cases "set_issue_due_date env n d st4")
  have "\<exists>rest. calls st6 = calls st4 @ view_cmd n # rest"
    using set_issue_due_date_calls [of env n d st4] dd
    by (auto split: prod.splits sum.splits if_splits)
  then obtain rest where c6: "calls st6 = calls st4 @ view_cmd n # rest" by blast
  have "calls (snd (try_body env mmap pid (n, ph, m, d) st)) = calls st6"
    unfolding body dd by (cases res) (auto simp: print_calls)
  then have calls: "new_calls st (snd (try_body env mmap pid (n, ph, m, d) st)) =
           [lookup_cmd n, add_cmd pid (format_value env nid), milestone_cmd n k, view_cmd n] @ rest"
    by (simp add: new_calls_def c1 c2 c4 c6)
  have ok: "issue_iteration env mmap pid (n, ph, m, d) (st, r) =
             (print (if d_ok then print s6 ''due date set'' [] else s6) ('' '' @ check_mark) nl,
              r\<lparr>processed := processed r + 1\<rparr>)"
    if "set_issue_due_date env n d st4 = (Inr d_ok, s6)" for d_ok s6
    using that body by (simp add: issue_iteration_def)
  have bad: "snd (issue_iteration env mmap pid (n, ph, m, d) (st, r)) =
             r\<lparr>errors := errors r @ [(n, str_exc env e)]\<rparr>"
    if "set_issue_due_date env n d st4 = (Inl e, s6)" for e s6
    using that body by (simp add: issue_iteration_def)
  from ms calls ok bad show ?thesis by blast
qed

theorem milestone_failure_is_swallowed_witness:
  "run (stub_env [(milestone_cmd 31 2, Exited 1 [] ''milestone not found'')]) (milestone_cmd 31 2) ()
     = (Exited 1 [] ''milestone not found'', ())
   \<and> (\<exists>rest. new_calls st0
         (snd (try_body (stub_env [(milestone_cmd 31 2, Exited 1 [] ''milestone not found'')])
                 milestone_map ''PVT_kwHOABsZ684BHe6N'' issue31 st0)) =
         [lookup_cmd 31, add_cmd ''PVT_kwHOABsZ684BHe6N'' ''I_node'', milestone_cmd 31 2, view_cmd 31] @ rest)"
proof -
  let ?pid = "''PVT_kwHOABsZ684BHe6N''"
  let ?env = "stub_env [(milestone_cmd 31 2, Exited 1 [] ''milestone not found'')]"
  let ?s1 = "\<lparr>world = (), calls = [lookup_cmd 31], out = ''  Issue #31... ''\<rparr>"
  let ?s2 = "\<lparr>world = (), calls = [lookup_cmd 31, add_cmd ?pid ''I_node''], out = ''  Issue #31... ''\<rparr>"
  have h1: "get_issue_node_id ?env 31 (print st0 (''  Issue #'' @ str_int 31 @ ''...'') '' '')
              = (Inr (JStr ''I_node''), ?s1)"
    by code_simp
  have h2: "add_issue_to_project ?env ?pid (JStr ''I_node'') ?s1 = (Inr (JStr ''PVTI_item''), ?s2)"
    by code_simp
  have h4: "map_of milestone_map ''Security Fix'' = Some 2"
    by code_simp
  have h5: "run ?env (milestone_cmd 31 2)
              (world (if truthy (JStr ''PVTI_item'') then print ?s2 ''added to project'' '', ''
                      else print ?s2 ''already in project'' '', ''))
              = (Exited 1 [] ''milestone not found'', ())"
    by code_simp
  have h5': "run ?env (milestone_cmd 31 2) () = (Exited 1 [] ''milestone not found'', ())"
    by code_simp
  have h6: "(1::int) \<noteq> 0" by simp
  have f: "format_value ?env (JStr ''I_node'') = ''I_node''"
    by (simp add: format_value_def)
  from milestone_failure_is_swallowed
         [OF h1 h2 refl h4 h5 h6 refl,
          where ph = "''Phase 1: Security''" and d = "''2025-11-07''"
            and r = "\<lparr>processed = 0, total_issues = 1, errors = []\<rparr>"]
  show ?thesis
    unfolding f using h5' by (simp add: issue31_def)
qed

text \<open>As stated, the claim fails: the milestone command of issue 31 exits with status \<open>1\<close>,
  and yet the failure list stays empty and the issue is counted as processed.\<close>

theorem milestone_failure_leaves_no_record:
  "fst (run (stub_env [(milestone_cmd 31 2, Exited 1 [] ''milestone not found'')]) (milestone_cmd 31 2) ())
     = Exited 1 [] ''milestone not found''
   \<and> issue_iteration (stub_env [(milestone_cmd 31 2, Exited 1 [] ''milestone not found'')])
        milestone_map ''PVT_kwHOABsZ684BHe6N'' issue31
        (st0, \<lparr>processed = 0, total_issues = 1, errors = []\<rparr>)
     = (\<lparr>world = (),
          calls = [lookup_cmd 31, add_cmd ''PVT_kwHOABsZ684BHe6N'' ''I_node'', milestone_cmd 31 2,
                   view_cmd 31, edit_body_cmd 31 ''**Due Date:** 2025-11-07''],
          out = ''  Issue #31... added to project, due date set '' @ check_mark @ nl\<rparr>,
        \<lparr>processed = 1, total_issues = 1, errors = []\<rparr>)"
  by code_simp

text \<open>
  Claim C6, as it holds. When resolving the identifier of an issue raises, the exception ends
  the \<^verbatim>\<open>try\<close> body after that one command, is recorded for the issue, and the loop goes on
  with the next tuple. The exception is a \<^verbatim>\<open>CalledProcessError\<close> when the command exits
  non-zero; it is a \<^verbatim>\<open>LookupError\<close> only as the \<^verbatim>\<open>KeyError\<close> of a key that the decoded answer
  of a successful command lacks.
\<close>

theorem lookup_failure_is_fatal_for_its_tuple_only:
  assumes "get_issue_node_id env n (print st (''  Issue #'' @ str_int n @ ''...'') '' '') = (Inl e, st1)"
  shows "try_body env mmap pid (n, ph, m, d) st = (Inl e, st1)
     \<and> new_calls st st1 = [lookup_cmd n]
     \<and> issue_iteration env mmap pid (n, ph, m, d) (st, r) =
         (print st1 ('' '' @ cross_mark @ '' Error: '' @ str_exc env e) nl,
          r\<lparr>errors := errors r @ [(n, str_exc env e)]\<rparr>)
     \<and> issues_loop env mmap pid ((n, ph, m, d) # ts) (st, r) =
         issues_loop env mmap pid ts
           (print st1 ('' '' @ cross_mark @ '' Error: '' @ str_exc env e) nl,
            r\<lparr>errors := errors r @ [(n, str_exc env e)]\<rparr>)
     \<and> (\<forall>returncode stdout stderr w'.
           run env (lookup_cmd n) (world st) = (Exited returncode stdout stderr, w') \<and> returncode \<noteq> 0
           \<longrightarrow> e = CalledProcessError (lookup_cmd n) returncode stderr)
     \<and> (is_LookupError e \<longrightarrow>
           e \<in> {KeyError ''data'', KeyError ''repository'', KeyError ''issue'', KeyError ''id''}
           \<and> (\<exists>stdout stderr w'. run env (lookup_cmd n) (world st) = (Exited 0 stdout stderr, w')))"
proof -
  let ?st0 = "print st (''  Issue #'' @ str_int n @ ''...'') '' ''"
  have body: "try_body env mmap pid (n, ph, m, d) st = (Inl e, st1)"
    using assms by (simp add: try_body_def)
  have calls: "new_calls st st1 = [lookup_cmd n]"
    using get_issue_node_id_eq_calls [OF assms] by (simp add: new_calls_def print_calls)
  have iter: "issue_iteration env mmap pid (n, ph, m, d) (st, r) =
         (print st1 ('' '' @ cross_mark @ '' Error: '' @ str_exc env e) nl,
          r\<lparr>errors := errors r @ [(n, str_exc env e)]\<rparr>)"
    using issue_iteration_raised [OF body, of r] by simp
  have loop: "issues_loop env mmap pid ((n, ph, m, d) # ts) (st, r) =
         issues_loop env mmap pid ts
           (print st1 ('' '' @ cross_mark @ '' Error: '' @ str_exc env e) nl,
            r\<lparr>errors := errors r @ [(n, str_exc env e)]\<rparr>)"
    by (simp add: iter)
  have nonzero: "e = CalledProcessError (lookup_cmd n) returncode stderr"
    if "run env (lookup_cmd n) (world st) = (Exited returncode stdout stderr, w') \<and> returncode \<noteq> 0"
    for returncode stdout stderr w'
    using that assms by (auto simp: get_issue_node_id_def subprocess_run_def print_world)
  have sub: "subscript v key = Inl x \<Longrightarrow> is_LookupError x \<Longrightarrow> x = KeyError key" for v key x
    by (cases v) (auto split: option.splits)
  have lookup: "e \<in> {KeyError ''data'', KeyError ''repository'', KeyError ''issue'', KeyError ''id''}
           \<and> (\<exists>stdout stderr w'. run env (lookup_cmd n) (world st) = (Exited 0 stdout stderr, w'))"
    if le: "is_LookupError e"
  proof (cases "run env (lookup_cmd n) (world st)")
    case (Pair oc w')
    show ?thesis
    proof (cases oc)
      case (SpawnFailed msg)
      with Pair assms le show ?thesis
        by (auto simp: get_issue_node_id_def subprocess_run_def print_world)
    next
      case (Exited returncode stdout stderr)
      show ?thesis
      proof (cases "returncode = 0")
        case False
        with Pair Exited nonzero le show ?thesis by auto
      next
        case True
        have run0: "subprocess_run env (lookup_cmd n) ?st0 =
                      (Inr stdout, ?st0\<lparr>world := w', calls := calls ?st0 @ [lookup_cmd n]\<rparr>)"
          using Pair Exited True by (simp add: subprocess_run_def print_world)
        have "e \<in> {KeyError ''data'', KeyError ''repository'', KeyError ''issue'', KeyError ''id''}"
          using assms le unfolding get_issue_node_id_def run0
          by (auto simp: json_loads_def split: sum.splits option.splits dest: sub)
        with Pair Exited True show ?thesis by auto
      qed
    qed
  qed
  from body calls iter loop nonzero lookup show ?thesis by blast
qed

theorem lookup_failure_is_fatal_for_its_tuple_only_witness:
  "issues_loop (stub_env [(lookup_cmd 59, not_found)]) milestone_map ''PVT_kwHOABsZ684BHe6N''
     [issue59] (st0, \<lparr>processed = 0, total_issues = 1, errors = []\<rparr>)
   = (\<lparr>world = (), calls = [lookup_cmd 59],
        out = ''  Issue #59...  '' @ cross_mark @ '' Error: non-zero exit status'' @ nl\<rparr>,
      \<lparr>processed = 0, total_issues = 1, errors = [(59, ''non-zero exit status'')]\<rparr>)"
proof -
  let ?env = "stub_env [(lookup_cmd 59, not_found)]"
  let ?e = "CalledProcessError (lookup_cmd 59) 1
              ''GraphQL: Could not resolve to an Issue with the number of 59.''"
  let ?s1 = "\<lparr>world = (), calls = [lookup_cmd 59], out = ''  Issue #59... ''\<rparr>"
  have h: "get_issue_node_id ?env 59 (print st0 (''  Issue #'' @ str_int 59 @ ''...'') '' '')
             = (Inl ?e, ?s1)"
    by code_simp
  have m: "str_exc ?env ?e = ''non-zero exit status''"
    by (simp add: stub_env_def stub_str_exc_def)
  from lookup_failure_is_fatal_for_its_tuple_only
         [OF h, where mmap = milestone_map and pid = "''PVT_kwHOABsZ684BHe6N''"
            and ph = "''Phase 2: Database''" and m = "''Database Improvements''"
            and d = "''2025-11-08''" and ts = "[]"
            and r = "\<lparr>processed = 0, total_issues = 1, errors = []\<rparr>"]
  show ?thesis
    unfolding m by (simp add: issue59_def print_def)
qed

text \<open>As stated, the claim fails: an issue that does not exist makes the command exit
  non-zero, which raises \<^verbatim>\<open>CalledProcessError\<close>; and an answer whose issue is \<^verbatim>\<open>null\<close> raises
  \<^verbatim>\<open>TypeError\<close>. Neither is a \<^verbatim>\<open>LookupError\<close>.\<close>

theorem missing_issue_is_not_a_LookupError:
  "fst (get_issue_node_id (stub_env [(lookup_cmd 59, not_found)]) 59 st0)
     = Inl (CalledProcessError (lookup_cmd 59) 1
              ''GraphQL: Could not resolve to an Issue with the number of 59.'')
   \<and> \<not> is_LookupError (CalledProcessError (lookup_cmd 59) 1
              ''GraphQL: Could not resolve to an Issue with the number of 59.'')
   \<and> fst (get_issue_node_id (stub_env [(lookup_cmd 59, Exited 0 ''N'' [])]) 59 st0) = Inl TypeError
   \<and> \<not> is_LookupError TypeError"
  by code_simp

section \<open>The ruleset check\<close>

lemma str_int_RULESET_ID: "str_int RULESET_ID = ''9523549''"
  by (simp add: str_int_def RULESET_ID_def str_nat.simps digit_char_def)

lemma ruleset_path_text: "ruleset_path = ''repos/RdHamilton/MTGA-Companion/rulesets/9523549''"
  by (simp add: ruleset_path_def REPO_def str_int_RULESET_ID)

lemma ruleset_path_words:
  "split ruleset_path = [''repos/RdHamilton/MTGA-Companion/rulesets/9523549'']"
  unfolding ruleset_path_text by code_simp

lemma print_checks_calls: "calls (print_checks s cs) = calls s"
  by (induction cs arbitrary: s) (simp_all add: print_calls)

lemma print_instructions_calls: "calls (print_instructions s) = calls s"
  unfolding print_instructions_def Let_def
  by (simp only: print_calls print_checks_calls)

lemma run_gh_command_calls:
  "calls (snd (run_gh_command env cmd st)) = calls st @ [[''gh'', ''api''] @ split cmd]"
proof -
  obtain res st' where r: "subprocess_run env ([''gh'', ''api''] @ split cmd) st = (res, st')"
    by (cases "subprocess_run env ([''gh'', ''api''] @ split cmd) st")
  from subprocess_run_eq_calls [OF r]
  have c: "calls st' = calls st @ [[''gh'', ''api''] @ split cmd]" by simp
  show ?thesis
    unfolding run_gh_command_def r
    by (auto simp: c print_def split: sum.splits py_exception.splits)
qed

text \<open>What \<^const>\<open>get_current_ruleset\<close> returns, read off the outcome of the command.\<close>

lemma get_current_ruleset_fetched:
  assumes "fetched_ruleset env st = Some current"
  shows "fst (get_current_ruleset env st) = Inr current"
proof -
  obtain oc w' where r: "run env (''gh'' # ''api'' # split ruleset_path) (world st) = (oc, w')"
    by (cases "run env (''gh'' # ''api'' # split ruleset_path) (world st)")
  from assms r obtain stdout stderr where oc: "oc = Exited 0 stdout stderr"
    and l: "loads env stdout = Some current"
    by (cases oc) (auto simp: fetched_ruleset_def split: if_splits)
  show ?thesis
    by (simp add: get_current_ruleset_def run_gh_command_def subprocess_run_def r oc l
                  json_loads_def)
qed

lemma get_current_ruleset_not_fetched:
  assumes "fetched_ruleset env st = None"
  shows "fst (get_current_ruleset env st) = Inr JNull \<or> isl (fst (get_current_ruleset env st))"
proof -
  obtain oc w' where r: "run env (''gh'' # ''api'' # split ruleset_path) (world st) = (oc, w')"
    by (cases "run env (''gh'' # ''api'' # split ruleset_path) (world st)")
  show ?thesis
  proof (cases oc)
    case (SpawnFailed msg)
    then show ?thesis
      by (simp add: get_current_ruleset_def run_gh_command_def subprocess_run_def r)
  next
    case (Exited returncode stdout stderr)
    show ?thesis
    proof (cases "returncode = 0")
      case False
      then show ?thesis
        by (simp add: get_current_ruleset_def run_gh_command_def subprocess_run_def r Exited)
    next
      case True
      with assms r Exited have "loads env stdout = None"
        by (simp add: fetched_ruleset_def)
      then show ?thesis
        by (simp add: get_current_ruleset_def run_gh_command_def subprocess_run_def r Exited True
                      json_loads_def)
    qed
  qed
qed

lemma rule_types_objects: "rule_types rs = Inr ts \<Longrightarrow> list_all is_object rs"
proof (induction rs arbitrary: ts)
  case Nil
  then show ?case by simp
next
  case (Cons r rs)
  then show ?case
    by (cases r) (auto simp: is_object_def split: sum.splits option.splits)
qed

lemma objects_rule_types: "list_all is_object rs \<Longrightarrow> \<exists>ts. rule_types rs = Inr ts"
proof (induction rs)
  case Nil
  then show ?case by simp
next
  case (Cons r rs)
  then show ?case
    by (cases r) (auto simp: is_object_def split: sum.splits option.splits)
qed

lemma objects_any_required:
  "list_all is_object rs \<Longrightarrow> any_required rs = Inr (list_ex is_required_rule rs)"
proof (induction rs)
  case Nil
  then show ?case by simp
next
  case (Cons r rs)
  then show ?case
    by (cases r) (auto simp: is_object_def is_required_rule_def split: option.splits)
qed

text \<open>The part of \<^const>\<open>update_ruleset_with_required_checks\<close> after the fetch: it returns
  \<^verbatim>\<open>True\<close> exactly for a ruleset whose rules are objects, one of them the required one.\<close>

lemma update_after_fetch:
  assumes "get_current_ruleset env st = (Inr current, st1)"
  shows "(fst (update_ruleset_with_required_checks env st) = Inr True
            \<longleftrightarrow> has_required_rule current \<and> rules_are_objects current)
     \<and> calls (snd (update_ruleset_with_required_checks env st)) = calls st1
     \<and> (wf_ruleset current \<and> truthy current \<and> \<not> has_required_rule current \<longrightarrow>
          (\<exists>st3. update_ruleset_with_required_checks env st = (Inr False, print_instructions st3)))"
proof (cases "truthy current \<and> is_object current")
  case False
  then show ?thesis
    using assms
    by (cases current)
       (auto simp: update_ruleset_with_required_checks_def is_object_def has_required_rule_def
                   ruleset_rules_def wf_ruleset_def print_def)
next
  case True
  then obtain kvs where cur: "current = JObj kvs" and ne: "kvs \<noteq> []"
    by (cases current) (auto simp: is_object_def)
  define rules where "rules = (case map_of kvs ''rules'' of None \<Rightarrow> JArr [] | Some v \<Rightarrow> v)"
  define name where "name = (case map_of kvs ''name'' of None \<Rightarrow> JNull | Some v \<Rightarrow> v)"
  define st2 where "st2 = print st1 (''Current ruleset: '' @ format_value env name) nl"
  have upd: "update_ruleset_with_required_checks env st =
     (case py_iter rules of
        Inl e \<Rightarrow> (Inl e, st2)
      | Inr rs \<Rightarrow>
          (case rule_types rs of
             Inl e \<Rightarrow> (Inl e, st2)
           | Inr ts \<Rightarrow>
               (case any_required rs of
                  Inl e \<Rightarrow> (Inl e, print st2 (''Current rules: '' @ str_value env (JArr ts)) nl)
                | Inr has_required_checks \<Rightarrow>
                    if has_required_checks then
                      (Inr True,
                       print (print st2 (''Current rules: '' @ str_value env (JArr ts)) nl)
                         ''Required status checks rule already exists in ruleset'' nl)
                    else (Inr False,
                          print_instructions
                            (print st2 (''Current rules: '' @ str_value env (JArr ts)) nl)))))"
    using assms ne
    by (simp add: update_ruleset_with_required_checks_def cur rules_def name_def st2_def Let_def
             split: option.splits sum.splits)
  have c2: "calls st2 = calls st1" by (simp add: st2_def print_def)
  have calls: "calls (snd (update_ruleset_with_required_checks env st)) = calls st1"
    unfolding upd
    by (auto simp: c2 print_def print_instructions_calls split: sum.splits)
  show ?thesis
  proof (cases "\<exists>rs. map_of kvs ''rules'' = Some (JArr rs)")
    case True
    then obtain rs where rs: "map_of kvs ''rules'' = Some (JArr rs)" by blast
    have rules: "rules = JArr rs" by (simp add: rules_def rs)
    have rr: "ruleset_rules current = rs" by (simp add: ruleset_rules_def cur rs)
    show ?thesis
    proof (cases "list_all is_object rs")
      case True
      from objects_rule_types [OF True] obtain ts where ts: "rule_types rs = Inr ts" by blast
      have u: "update_ruleset_with_required_checks env st =
                 (if list_ex is_required_rule rs then
                    (Inr True,
                     print (print st2 (''Current rules: '' @ str_value env (JArr ts)) nl)
                       ''Required status checks rule already exists in ruleset'' nl)
                  else (Inr False,
                        print_instructions
                          (print st2 (''Current rules: '' @ str_value env (JArr ts)) nl)))"
        unfolding upd by (simp add: rules ts objects_any_required [OF True])
      show ?thesis
        using calls True
        by (auto simp: u has_required_rule_def rules_are_objects_def rr)
    next
      case False
      then have "isl (rule_types rs)"
        using rule_types_objects [of rs] by (cases "rule_types rs") auto
      then have "isl (fst (update_ruleset_with_required_checks env st))"
        unfolding upd by (auto simp: rules split: sum.splits)
      then have notT: "fst (update_ruleset_with_required_checks env st) \<noteq> Inr True"
        by auto
      have nro: "\<not> rules_are_objects current"
        using False by (simp add: rules_are_objects_def rr)
      have nwf: "\<not> wf_ruleset current"
        using False by (simp add: wf_ruleset_def cur rs)
      from notT nro nwf calls show ?thesis by blast
    qed
  next
    case False
    have rr: "ruleset_rules current = []"
      using False by (auto simp: ruleset_rules_def cur split: option.splits json.splits)
    have no: "\<not> has_required_rule current" by (simp add: has_required_rule_def rr)
    have notT: "fst (update_ruleset_with_required_checks env st) \<noteq> Inr True"
    proof
      assume t: "fst (update_ruleset_with_required_checks env st) = Inr True"
      then obtain rs ts where it: "py_iter rules = Inr rs" and ty: "rule_types rs = Inr ts"
        and an: "any_required rs = Inr True"
        unfolding upd by (auto split: sum.splits if_splits)
      from rule_types_objects [OF ty] have obj: "list_all is_object rs" .
      from an have "rs \<noteq> []" by auto
      have "\<exists>xs. rules = JArr xs"
      proof (cases rules)
        case (JArr xs)
        then show ?thesis by blast
      next
        case (JObj kvs')
        with it have "rs = map (\<lambda>kv. JStr (fst kv)) kvs'" by simp
        with obj \<open>rs \<noteq> []\<close> show ?thesis
          by (cases kvs') (simp_all add: is_object_def)
      next
        case (JStr str)
        with it have "rs = map (\<lambda>c. JStr [c]) str" by simp
        with obj \<open>rs \<noteq> []\<close> show ?thesis
          by (cases str) (simp_all add: is_object_def)
      qed (use it in simp_all)
      then obtain xs where xs: "rules = JArr xs" by blast
      with it have "xs = rs" by simp
      with xs \<open>rs \<noteq> []\<close> False show False
        by (auto simp: rules_def split: option.splits)
    qed
    have wf: "update_ruleset_with_required_checks env st =
                (Inr False, print_instructions (print st2 (''Current rules: '' @ str_value env (JArr [])) nl))"
      if "wf_ruleset current"
    proof -
      from that False have "map_of kvs ''rules'' = None"
        by (auto simp: wf_ruleset_def cur split: option.splits json.splits)
      then have "rules = JArr []" by (simp add: rules_def)
      then show ?thesis unfolding upd by simp
    qed
    from no notT calls wf show ?thesis by blast
  qed
qed

text \<open>What \<^const>\<open>print_instructions\<close> writes.\<close>

lemma print_instructions_out:
  "out (print_instructions s) =
     out s @
        nl @ ''To add required status checks, you have two options:'' @ nl @
        nl @ ''Option 1: Update the ruleset via GitHub UI'' @ nl @
        ''1. Go to: https://github.com/RdHamilton/MTGA-Companion/settings/rules'' @ nl @
        ''2. Click on ruleset ID 9523549'' @ nl @
        ''3. Click '' @ [CHR 0x27] @ ''Add rule'' @ [CHR 0x27] @ '' and select '' @ [CHR 0x27] @ ''Required status checks'' @ [CHR 0x27] @ nl @
        ''4. Add the following checks:'' @ nl @
        ''   - Test (Linux)'' @ nl @ ''   - Lint'' @ nl @ ''   - Format Check'' @ nl @
        ''5. Save the changes'' @ nl @
        nl @ ''Option 2: Set up branch protection (Recommended)'' @ nl @
        ''1. Go to: https://github.com/RdHamilton/MTGA-Companion/settings/branches'' @ nl @
        ''2. Click '' @ [CHR 0x27] @ ''Add rule'' @ [CHR 0x27] @ '' or edit existing rule for '' @ [CHR 0x27] @ ''main'' @ [CHR 0x27] @ '' branch'' @ nl @
        ''3. Enable '' @ [CHR 0x27] @ ''Require status checks to pass before merging'' @ [CHR 0x27] @ nl @
        ''4. Select the following required checks:'' @ nl @
        ''   - Test (Linux)'' @ nl @ ''   - Lint'' @ nl @ ''   - Format Check'' @ nl @
        ''5. Optionally enable '' @ [CHR 0x27] @ ''Require branches to be up to date before merging'' @ [CHR 0x27] @ nl @
        ''6. Save the changes'' @ nl @
        nl @ ''Note: Branch protection is more flexible and easier to manage.'' @ nl @
        ''Rulesets are newer but may have limitations.'' @ nl"
  unfolding print_instructions_def Let_def
  by (simp add: print_out REQUIRED_CHECKS_def REPO_def str_int_RULESET_ID quote_def)

lemma get_current_ruleset_fetched_state:
  assumes "fetched_ruleset env st = Some current"
  shows "\<exists>st1. get_current_ruleset env st = (Inr current, st1) \<and> out st1 = out st"
proof -
  obtain oc w' where r: "run env (''gh'' # ''api'' # split ruleset_path) (world st) = (oc, w')"
    by (cases "run env (''gh'' # ''api'' # split ruleset_path) (world st)")
  from assms r obtain stdout stderr where oc: "oc = Exited 0 stdout stderr"
    and l: "loads env stdout = Some current"
    by (cases oc) (auto simp: fetched_ruleset_def split: if_splits)
  show ?thesis
    by (simp add: get_current_ruleset_def run_gh_command_def subprocess_run_def r oc l
                  json_loads_def)
qed

text \<open>A command that exits non-zero: two error lines, \<^verbatim>\<open>None\<close>, and the third error line.\<close>

lemma update_fetch_failed:
  assumes "run env (''gh'' # ''api'' # split ruleset_path) (world st)
             = (Exited returncode stdout stderr, w')"
    and "returncode \<noteq> 0"
  shows "fst (update_ruleset_with_required_checks env st) = Inr False
     \<and> out (snd (update_ruleset_with_required_checks env st)) =
          out st @ ''Error running command: '' @ ruleset_path @ nl @ ''Error: '' @ stderr @ nl @
          ''Error: Could not fetch current ruleset'' @ nl"
  using assms
  by (simp add: update_ruleset_with_required_checks_def get_current_ruleset_def
                run_gh_command_def subprocess_run_def print_out)

text \<open>A well-formed ruleset without the rule: the name, the rule types, the instructions.\<close>

lemma update_no_rule:
  assumes g: "get_current_ruleset env st = (Inr current, st1)"
    and wf: "wf_ruleset current" and tr: "truthy current" and no: "\<not> has_required_rule current"
    and nm: "dict_get current ''name'' JNull = Inr name"
    and ty: "rule_types (ruleset_rules current) = Inr ts"
  shows "update_ruleset_with_required_checks env st =
           (Inr False,
            print_instructions
              (print (print st1 (''Current ruleset: '' @ format_value env name) nl)
                 (''Current rules: '' @ str_value env (JArr ts)) nl))"
proof -
  from wf obtain kvs where cur: "current = JObj kvs"
    by (cases current) (simp_all add: wf_ruleset_def)
  have rules: "dict_get current ''rules'' (JArr []) = Inr (JArr (ruleset_rules current))"
    and objs: "list_all is_object (ruleset_rules current)"
    using wf unfolding cur
    by (auto simp: wf_ruleset_def ruleset_rules_def split: option.splits json.splits)
  from objects_any_required [OF objs] no
  have an: "any_required (ruleset_rules current) = Inr False"
    by (simp add: has_required_rule_def)
  show ?thesis
    unfolding update_ruleset_with_required_checks_def
    by (simp add: g tr nm rules ty an)
qed

text \<open>
  Claim C7, as it holds. Provided the rules of a fetched ruleset are objects, the ruleset-check
  script exits with status \<open>0\<close> exactly when the command delivered a ruleset that has a rule of
  type \<open>required_status_checks\<close>, and with status \<open>1\<close> otherwise, be it that the ruleset could
  not be fetched or that it has no such rule. The one command it issues is the \<^verbatim>\<open>gh api\<close> read
  of the ruleset. For a well-formed ruleset without the rule it returns \<^verbatim>\<open>False\<close> after
  printing the name of the ruleset, the types of its rules and the manual instructions; when
  the command exits non-zero it returns \<^verbatim>\<open>False\<close> after printing three error lines.
\<close>

theorem ruleset_check_exit_status:
  assumes "\<forall>current. fetched_ruleset env st = Some current \<longrightarrow> rules_are_objects current"
  shows "(configure_exit_status env st = 0
            \<longleftrightarrow> (\<exists>current. fetched_ruleset env st = Some current \<and> has_required_rule current))
     \<and> (configure_exit_status env st \<noteq> 0 \<longrightarrow> configure_exit_status env st = 1)
     \<and> new_calls st (snd (update_ruleset_with_required_checks env st))
         = [[''gh'', ''api'', ''repos/RdHamilton/MTGA-Companion/rulesets/9523549'']]
     \<and> (\<forall>current. fetched_ruleset env st = Some current \<and> wf_ruleset current \<and> truthy current
            \<and> \<not> has_required_rule current \<longrightarrow>
          (\<exists>st3. update_ruleset_with_required_checks env st = (Inr False, print_instructions st3)))
     \<and> (\<forall>current name ts.
          fetched_ruleset env st = Some current \<and> wf_ruleset current \<and> truthy current
            \<and> \<not> has_required_rule current \<and> dict_get current ''name'' JNull = Inr name
            \<and> rule_types (ruleset_rules current) = Inr ts \<longrightarrow>
          fst (update_ruleset_with_required_checks env st) = Inr False
          \<and> out (snd (update_ruleset_with_required_checks env st)) =
              out st @ ''Current ruleset: '' @ format_value env name @ nl @
              ''Current rules: '' @ str_value env (JArr ts) @ nl @
              nl @ ''To add required status checks, you have two options:'' @ nl @
              nl @ ''Option 1: Update the ruleset via GitHub UI'' @ nl @
              ''1. Go to: https://github.com/RdHamilton/MTGA-Companion/settings/rules'' @ nl @
              ''2. Click on ruleset ID 9523549'' @ nl @
              ''3. Click '' @ [CHR 0x27] @ ''Add rule'' @ [CHR 0x27] @ '' and select '' @ [CHR 0x27] @ ''Required status checks'' @ [CHR 0x27] @ nl @
              ''4. Add the following checks:'' @ nl @
              ''   - Test (Linux)'' @ nl @ ''   - Lint'' @ nl @ ''   - Format Check'' @ nl @
              ''5. Save the changes'' @ nl @
              nl @ ''Option 2: Set up branch protection (Recommended)'' @ nl @
              ''1. Go to: https://github.com/RdHamilton/MTGA-Companion/settings/branches'' @ nl @
              ''2. Click '' @ [CHR 0x27] @ ''Add rule'' @ [CHR 0x27] @ '' or edit existing rule for '' @ [CHR 0x27] @ ''main'' @ [CHR 0x27] @ '' branch'' @ nl @
              ''3. Enable '' @ [CHR 0x27] @ ''Require status checks to pass before merging'' @ [CHR 0x27] @ nl @
              ''4. Select the following required checks:'' @ nl @
              ''   - Test (Linux)'' @ nl @ ''   - Lint'' @ nl @ ''   - Format Check'' @ nl @
              ''5. Optionally enable '' @ [CHR 0x27] @ ''Require branches to be up to date before merging'' @ [CHR 0x27] @ nl @
              ''6. Save the changes'' @ nl @
              nl @ ''Note: Branch protection is more flexible and easier to manage.'' @ nl @
              ''Rulesets are newer but may have limitations.'' @ nl)
     \<and> (\<forall>returncode stdout stderr w'.
          run env [''gh'', ''api'', ''repos/RdHamilton/MTGA-Companion/rulesets/9523549''] (world st)
            = (Exited returncode stdout stderr, w') \<and> returncode \<noteq> 0 \<longrightarrow>
          fst (update_ruleset_with_required_checks env st) = Inr False
          \<and> out (snd (update_ruleset_with_required_checks env st)) =
              out st @ ''Error running command: repos/RdHamilton/MTGA-Companion/rulesets/9523549'' @ nl @
              ''Error: '' @ stderr @ nl @ ''Error: Could not fetch current ruleset'' @ nl)"
proof -
  obtain res st1 where g: "get_current_ruleset env st = (res, st1)"
    by (cases "get_current_ruleset env st")
  have c1: "calls st1 = calls st @ [[''gh'', ''api''] @ split ruleset_path]"
    using run_gh_command_calls [of env ruleset_path st] g by (simp add: get_current_ruleset_def)
  have status: "configure_exit_status env st = 0
                  \<longleftrightarrow> fst (update_ruleset_with_required_checks env st) = Inr True"
    by (auto simp: configure_exit_status_def split: sum.splits)
  have one: "configure_exit_status env st \<noteq> 0 \<longrightarrow> configure_exit_status env st = 1"
    by (auto simp: configure_exit_status_def split: sum.splits)
  have calls: "new_calls st (snd (update_ruleset_with_required_checks env st))
                 = [[''gh'', ''api'', ''repos/RdHamilton/MTGA-Companion/rulesets/9523549'']]"
  proof (cases res)
    case (Inl e)
    then have "update_ruleset_with_required_checks env st = (Inl e, st1)"
      using g by (simp add: update_ruleset_with_required_checks_def)
    then show ?thesis
      by (simp add: new_calls_def c1 ruleset_path_words)
  next
    case (Inr current)
    from update_after_fetch [OF g [unfolded Inr]]
    have "calls (snd (update_ruleset_with_required_checks env st)) = calls st1" by blast
    then show ?thesis
      by (simp add: new_calls_def c1 ruleset_path_words)
  qed
  have zero: "configure_exit_status env st = 0
                \<longleftrightarrow> (\<exists>current. fetched_ruleset env st = Some current \<and> has_required_rule current)"
  proof (cases "fetched_ruleset env st")
    case None
    from get_current_ruleset_not_fetched [OF None] g
    have "res = Inr JNull \<or> isl res" by simp
    then have "fst (update_ruleset_with_required_checks env st) \<noteq> Inr True"
    proof
      assume "res = Inr JNull"
      then show ?thesis by (simp add: update_ruleset_with_required_checks_def g)
    next
      assume "isl res"
      then obtain e where "res = Inl e" by (cases res) auto
      then show ?thesis by (simp add: update_ruleset_with_required_checks_def g)
    qed
    with status None show ?thesis by simp
  next
    case (Some current)
    from get_current_ruleset_fetched [OF Some] g have res: "res = Inr current" by simp
    from assms Some have ro: "rules_are_objects current" by blast
    from update_after_fetch [OF g [unfolded res]] ro
    have "fst (update_ruleset_with_required_checks env st) = Inr True \<longleftrightarrow> has_required_rule current"
      by blast
    with status Some show ?thesis by simp
  qed
  have instr: "\<exists>st3. update_ruleset_with_required_checks env st = (Inr False, print_instructions st3)"
    if h: "fetched_ruleset env st = Some current \<and> wf_ruleset current \<and> truthy current
            \<and> \<not> has_required_rule current" for current
  proof -
    from h have f: "fetched_ruleset env st = Some current" by blast
    from get_current_ruleset_fetched [OF f] g have res: "res = Inr current" by simp
    from update_after_fetch [OF g [unfolded res]] h show ?thesis by blast
  qed
  have printed: "fst (update_ruleset_with_required_checks env st) = Inr False
          \<and> out (snd (update_ruleset_with_required_checks env st)) =
              out st @ ''Current ruleset: '' @ format_value env name @ nl @
              ''Current rules: '' @ str_value env (JArr ts) @ nl @
              nl @ ''To add required status checks, you have two options:'' @ nl @
              nl @ ''Option 1: Update the ruleset via GitHub UI'' @ nl @
              ''1. Go to: https://github.com/RdHamilton/MTGA-Companion/settings/rules'' @ nl @
              ''2. Click on ruleset ID 9523549'' @ nl @
              ''3. Click '' @ [CHR 0x27] @ ''Add rule'' @ [CHR 0x27] @ '' and select '' @ [CHR 0x27] @ ''Required status checks'' @ [CHR 0x27] @ nl @
              ''4. Add the following checks:'' @ nl @
              ''   - Test (Linux)'' @ nl @ ''   - Lint'' @ nl @ ''   - Format Check'' @ nl @
              ''5. Save the changes'' @ nl @
              nl @ ''Option 2: Set up branch protection (Recommended)'' @ nl @
              ''1. Go to: https://github.com/RdHamilton/MTGA-Companion/settings/branches'' @ nl @
              ''2. Click '' @ [CHR 0x27] @ ''Add rule'' @ [CHR 0x27] @ '' or edit existing rule for '' @ [CHR 0x27] @ ''main'' @ [CHR 0x27] @ '' branch'' @ nl @
              ''3. Enable '' @ [CHR 0x27] @ ''Require status checks to pass before merging'' @ [CHR 0x27] @ nl @
              ''4. Select the following required checks:'' @ nl @
              ''   - Test (Linux)'' @ nl @ ''   - Lint'' @ nl @ ''   - Format Check'' @ nl @
              ''5. Optionally enable '' @ [CHR 0x27] @ ''Require branches to be up to date before merging'' @ [CHR 0x27] @ nl @
              ''6. Save the changes'' @ nl @
              nl @ ''Note: Branch protection is more flexible and easier to manage.'' @ nl @
              ''Rulesets are newer but may have limitations.'' @ nl"
    if h: "fetched_ruleset env st = Some current \<and> wf_ruleset current \<and> truthy current
            \<and> \<not> has_required_rule current \<and> dict_get current ''name'' JNull = Inr name
            \<and> rule_types (ruleset_rules current) = Inr ts" for current name ts
  proof -
    from h have f: "fetched_ruleset env st = Some current" by blast
    from get_current_ruleset_fetched_state [OF f] obtain s1 where
      g1: "get_current_ruleset env st = (Inr current, s1)" and o1: "out s1 = out st"
      by blast
    from h have u: "update_ruleset_with_required_checks env st =
           (Inr False,
            print_instructions
              (print (print s1 (''Current ruleset: '' @ format_value env name) nl)
                 (''Current rules: '' @ str_value env (JArr ts)) nl))"
      by (intro update_no_rule [OF g1]) blast+
    show ?thesis
      unfolding u by (simp add: print_instructions_out print_out o1)
  qed
  have failed: "fst (update_ruleset_with_required_checks env st) = Inr False
          \<and> out (snd (update_ruleset_with_required_checks env st)) =
              out st @ ''Error running command: repos/RdHamilton/MTGA-Companion/rulesets/9523549'' @ nl @
              ''Error: '' @ stderr @ nl @ ''Error: Could not fetch current ruleset'' @ nl"
    if h: "run env [''gh'', ''api'', ''repos/RdHamilton/MTGA-Companion/rulesets/9523549''] (world st)
            = (Exited returncode stdout stderr, w') \<and> returncode \<noteq> 0"
    for returncode stdout stderr w'
  proof -
    from h have r: "run env (''gh'' # ''api'' # split ruleset_path) (world st)
                      = (Exited returncode stdout stderr, w')"
      and nz: "returncode \<noteq> 0"
      by (simp_all add: ruleset_path_words)
    from update_fetch_failed [OF r nz] show ?thesis
      by (simp add: ruleset_path_text)
  qed
  show ?thesis
  proof (intro conjI allI impI)
    show "configure_exit_status env st = 0
            \<longleftrightarrow> (\<exists>current. fetched_ruleset env st = Some current \<and> has_required_rule current)"
      by (rule zero)
    show "configure_exit_status env st = 1" if "configure_exit_status env st \<noteq> 0"
      using one that by blast
    show "new_calls st (snd (update_ruleset_with_required_checks env st))
         = [[''gh'', ''api'', ''repos/RdHamilton/MTGA-Companion/rulesets/9523549'']]"
      by (rule calls)
  next
    fix current
    assume "fetched_ruleset env st = Some current \<and> wf_ruleset current \<and> truthy current
            \<and> \<not> has_required_rule current"
    then show "\<exists>st3. update_ruleset_with_required_checks env st = (Inr False, print_instructions st3)"
      by (rule instr)
  next
    fix current name ts
    assume h: "fetched_ruleset env st = Some current \<and> wf_ruleset current \<and> truthy current
            \<and> \<not> has_required_rule current \<and> dict_get current ''name'' JNull = Inr name
            \<and> rule_types (ruleset_rules current) = Inr ts"
    from printed [OF h]
    show "fst (update_ruleset_with_required_checks env st) = Inr False" by blast
    from printed [OF h]
    show "out (snd (update_ruleset_with_required_checks env st)) =
              out st @ ''Current ruleset: '' @ format_value env name @ nl @
              ''Current rules: '' @ str_value env (JArr ts) @ nl @
              nl @ ''To add required status checks, you have two options:'' @ nl @
              nl @ ''Option 1: Update the ruleset via GitHub UI'' @ nl @
              ''1. Go to: https://github.com/RdHamilton/MTGA-Companion/settings/rules'' @ nl @
              ''2. Click on ruleset ID 9523549'' @ nl @
              ''3. Click '' @ [CHR 0x27] @ ''Add rule'' @ [CHR 0x27] @ '' and select '' @ [CHR 0x27] @ ''Required status checks'' @ [CHR 0x27] @ nl @
              ''4. Add the following checks:'' @ nl @
              ''   - Test (Linux)'' @ nl @ ''   - Lint'' @ nl @ ''   - Format Check'' @ nl @
              ''5. Save the changes'' @ nl @
              nl @ ''Option 2: Set up branch protection (Recommended)'' @ nl @
              ''1. Go to: https://github.com/RdHamilton/MTGA-Companion/settings/branches'' @ nl @
              ''2. Click '' @ [CHR 0x27] @ ''Add rule'' @ [CHR 0x27] @ '' or edit existing rule for '' @ [CHR 0x27] @ ''main'' @ [CHR 0x27] @ '' branch'' @ nl @
              ''3. Enable '' @ [CHR 0x27] @ ''Require status checks to pass before merging'' @ [CHR 0x27] @ nl @
              ''4. Select the following required checks:'' @ nl @
              ''   - Test (Linux)'' @ nl @ ''   - Lint'' @ nl @ ''   - Format Check'' @ nl @
              ''5. Optionally enable '' @ [CHR 0x27] @ ''Require branches to be up to date before merging'' @ [CHR 0x27] @ nl @
              ''6. Save the changes'' @ nl @
              nl @ ''Note: Branch protection is more flexible and easier to manage.'' @ nl @
              ''Rulesets are newer but may have limitations.'' @ nl"
      by blast
  next
    fix returncode stdout stderr w'
    assume h: "run env [''gh'', ''api'', ''repos/RdHamilton/MTGA-Companion/rulesets/9523549''] (world st)
            = (Exited returncode stdout stderr, w') \<and> returncode \<noteq> 0"
    from failed [OF h]
    show "fst (update_ruleset_with_required_checks env st) = Inr False" by blast
    from failed [OF h]
    show "out (snd (update_ruleset_with_required_checks env st)) =
              out st @ ''Error running command: repos/RdHamilton/MTGA-Companion/rulesets/9523549'' @ nl @
              ''Error: '' @ stderr @ nl @ ''Error: Could not fetch current ruleset'' @ nl"
      by blast
  qed
qed

text \<open>A ruleset with the rule gives status \<open>0\<close>; one without it gives status \<open>1\<close> and the
  instructions.\<close>

theorem ruleset_check_exit_status_witness:
  "configure_exit_status
       (stub_env [([''gh'', ''api'', ''repos/RdHamilton/MTGA-Companion/rulesets/9523549''],
                   Exited 0 ''R'' [])]) st0 = 0
   \<and> configure_exit_status
       (stub_env [([''gh'', ''api'', ''repos/RdHamilton/MTGA-Companion/rulesets/9523549''],
                   Exited 0 ''S'' [])]) st0 = 1
   \<and> out (snd (update_ruleset_with_required_checks
       (stub_env [([''gh'', ''api'', ''repos/RdHamilton/MTGA-Companion/rulesets/9523549''],
                   Exited 0 ''S'' [])]) st0)) =
       ''Current ruleset: main'' @ nl @ ''Current rules: None'' @ nl @
       nl @ ''To add required status checks, you have two options:'' @ nl @
       nl @ ''Option 1: Update the ruleset via GitHub UI'' @ nl @
       ''1. Go to: https://github.com/RdHamilton/MTGA-Companion/settings/rules'' @ nl @
       ''2. Click on ruleset ID 9523549'' @ nl @
       ''3. Click '' @ [CHR 0x27] @ ''Add rule'' @ [CHR 0x27] @ '' and select '' @ [CHR 0x27] @ ''Required status checks'' @ [CHR 0x27] @ nl @
       ''4. Add the following checks:'' @ nl @
       ''   - Test (Linux)'' @ nl @ ''   - Lint'' @ nl @ ''   - Format Check'' @ nl @
       ''5. Save the changes'' @ nl @
       nl @ ''Option 2: Set up branch protection (Recommended)'' @ nl @
       ''1. Go to: https://github.com/RdHamilton/MTGA-Companion/settings/branches'' @ nl @
       ''2. Click '' @ [CHR 0x27] @ ''Add rule'' @ [CHR 0x27] @ '' or edit existing rule for '' @ [CHR 0x27] @ ''main'' @ [CHR 0x27] @ '' branch'' @ nl @
       ''3. Enable '' @ [CHR 0x27] @ ''Require status checks to pass before merging'' @ [CHR 0x27] @ nl @
       ''4. Select the following required checks:'' @ nl @
       ''   - Test (Linux)'' @ nl @ ''   - Lint'' @ nl @ ''   - Format Check'' @ nl @
       ''5. Optionally enable '' @ [CHR 0x27] @ ''Require branches to be up to date before merging'' @ [CHR 0x27] @ nl @
       ''6. Save the changes'' @ nl @
       nl @ ''Note: Branch protection is more flexible and easier to manage.'' @ nl @
       ''Rulesets are newer but may have limitations.'' @ nl"
proof -
  let ?cmd = "[''gh'', ''api'', ''repos/RdHamilton/MTGA-Companion/rulesets/9523549'']"
  let ?R = "JObj [(''name'', JStr ''main''),
                  (''rules'', JArr [JObj [(''type'', JStr ''deletion'')],
                                    JObj [(''type'', JStr ''required_status_checks'')]])]"
  let ?S = "JObj [(''name'', JStr ''main''), (''rules'', JArr [JObj [(''type'', JStr ''deletion'')]])]"
  let ?envS = "stub_env [(?cmd, Exited 0 ''S'' [])]"
  have fR: "fetched_ruleset (stub_env [(?cmd, Exited 0 ''R'' [])]) st0 = Some ?R"
    by (simp add: fetched_ruleset_def ruleset_path_words stub_env_def canned_def stub_loads_def)
  have fS: "fetched_ruleset ?envS st0 = Some ?S"
    by (simp add: fetched_ruleset_def ruleset_path_words stub_env_def canned_def stub_loads_def)
  have oR: "rules_are_objects ?R" and hR: "has_required_rule ?R"
    by code_simp+
  have oS: "rules_are_objects ?S" and hS: "\<not> has_required_rule ?S"
    by code_simp+
  have wS: "wf_ruleset ?S" and tS: "truthy ?S"
    by code_simp+
  have nS: "dict_get ?S ''name'' JNull = Inr (JStr ''main'')"
    by simp
  have rS: "rule_types (ruleset_rules ?S) = Inr [JStr ''deletion'']"
    by (simp add: ruleset_rules_def)
  have vS: "format_value ?envS (JStr ''main'') = ''main''"
           "str_value ?envS (JArr [JStr ''deletion'']) = ''None''" "out st0 = []"
    by (simp_all add: format_value_def stub_env_def st0_def)
  note thmR = ruleset_check_exit_status [where env = "stub_env [(?cmd, Exited 0 ''R'' [])]" and st = st0]
  note thmS = ruleset_check_exit_status [where env = ?envS and st = st0]
  have aR: "\<forall>current. fetched_ruleset (stub_env [(?cmd, Exited 0 ''R'' [])]) st0 = Some current
              \<longrightarrow> rules_are_objects current"
    using fR oR by simp
  have aS: "\<forall>current. fetched_ruleset ?envS st0 = Some current \<longrightarrow> rules_are_objects current"
    using fS oS by simp
  from thmR [OF aR, THEN conjunct1] fR hR
  have 0: "configure_exit_status (stub_env [(?cmd, Exited 0 ''R'' [])]) st0 = 0"
    by blast
  from thmS [OF aS, THEN conjunct1] thmS [OF aS, THEN conjunct2, THEN conjunct1] fS hS
  have 1: "configure_exit_status ?envS st0 = 1"
    by auto
  note p = thmS [OF aS, THEN conjunct2, THEN conjunct2, THEN conjunct2, THEN conjunct2,
                 THEN conjunct1, rule_format,
                 OF conjI [OF fS conjI [OF wS conjI [OF tS conjI [OF hS conjI [OF nS rS]]]]],
                 THEN conjunct2]
  have 2: "out (snd (update_ruleset_with_required_checks ?envS st0)) =
       ''Current ruleset: main'' @ nl @ ''Current rules: None'' @ nl @
       nl @ ''To add required status checks, you have two options:'' @ nl @
       nl @ ''Option 1: Update the ruleset via GitHub UI'' @ nl @
       ''1. Go to: https://github.com/RdHamilton/MTGA-Companion/settings/rules'' @ nl @
       ''2. Click on ruleset ID 9523549'' @ nl @
       ''3. Click '' @ [CHR 0x27] @ ''Add rule'' @ [CHR 0x27] @ '' and select '' @ [CHR 0x27] @ ''Required status checks'' @ [CHR 0x27] @ nl @
       ''4. Add the following checks:'' @ nl @
       ''   - Test (Linux)'' @ nl @ ''   - Lint'' @ nl @ ''   - Format Check'' @ nl @
       ''5. Save the changes'' @ nl @
       nl @ ''Option 2: Set up branch protection (Recommended)'' @ nl @
       ''1. Go to: https://github.com/RdHamilton/MTGA-Companion/settings/branches'' @ nl @
       ''2. Click '' @ [CHR 0x27] @ ''Add rule'' @ [CHR 0x27] @ '' or edit existing rule for '' @ [CHR 0x27] @ ''main'' @ [CHR 0x27] @ '' branch'' @ nl @
       ''3. Enable '' @ [CHR 0x27] @ ''Require status checks to pass before merging'' @ [CHR 0x27] @ nl @
       ''4. Select the following required checks:'' @ nl @
       ''   - Test (Linux)'' @ nl @ ''   - Lint'' @ nl @ ''   - Format Check'' @ nl @
       ''5. Optionally enable '' @ [CHR 0x27] @ ''Require branches to be up to date before merging'' @ [CHR 0x27] @ nl @
       ''6. Save the changes'' @ nl @
       nl @ ''Note: Branch protection is more flexible and easier to manage.'' @ nl @
       ''Rulesets are newer but may have limitations.'' @ nl"
    using p unfolding vS by simp
  from 0 1 2 show ?thesis by blast
qed

text \<open>As stated, without the condition on the rules, the claim fails: the fetched ruleset has
  a rule of type \<open>required_status_checks\<close>, but its second rule is \<^verbatim>\<open>null\<close>; listing the rule
  types raises \<^verbatim>\<open>AttributeError\<close> and the process ends with status \<open>1\<close>.\<close>

theorem malformed_rule_hides_required_rule:
  "fetched_ruleset
     (stub_env [([''gh'', ''api'', ''repos/RdHamilton/MTGA-Companion/rulesets/9523549''],
                 Exited 0 ''T'' [])]) st0
     = Some (JObj [(''name'', JStr ''main''),
                   (''rules'', JArr [JObj [(''type'', JStr ''required_status_checks'')], JNull])])
   \<and> has_required_rule
       (JObj [(''name'', JStr ''main''),
              (''rules'', JArr [JObj [(''type'', JStr ''required_status_checks'')], JNull])])
   \<and> fst (update_ruleset_with_required_checks
       (stub_env [([''gh'', ''api'', ''repos/RdHamilton/MTGA-Companion/rulesets/9523549''],
                   Exited 0 ''T'' [])]) st0) = Inl AttributeError
   \<and> configure_exit_status
       (stub_env [([''gh'', ''api'', ''repos/RdHamilton/MTGA-Companion/rulesets/9523549''],
                   Exited 0 ''T'' [])]) st0 = 1"
proof -
  let ?cmd = "[''gh'', ''api'', ''repos/RdHamilton/MTGA-Companion/rulesets/9523549'']"
  let ?env = "stub_env [(?cmd, Exited 0 ''T'' [])]"
  let ?T = "JObj [(''name'', JStr ''main''),
                  (''rules'', JArr [JObj [(''type'', JStr ''required_status_checks'')], JNull])]"
  have f: "fetched_ruleset ?env st0 = Some ?T"
    by (simp add: fetched_ruleset_def ruleset_path_words stub_env_def canned_def stub_loads_def)
  have h: "has_required_rule ?T"
    by code_simp
  have g: "fst (get_current_ruleset ?env st0) = Inr ?T"
    using f by (rule get_current_ruleset_fetched)
  obtain s1 where g1: "get_current_ruleset ?env st0 = (Inr ?T, s1)"
    using g by (cases "get_current_ruleset ?env st0") auto
  have u: "fst (update_ruleset_with_required_checks ?env st0) = Inl AttributeError"
    by (simp add: update_ruleset_with_required_checks_def g1)
  then have e: "configure_exit_status ?env st0 = 1"
    by (simp add: configure_exit_status_def)
  from f h u e show ?thesis by blast
qed

section \<open>The static tables\<close>

lemma static_milestones_known:
  "list_all (\<lambda>(project_num, issues).
       list_all (\<lambda>(issue_num, phase, milestone, date_str). map_of milestone_map milestone \<noteq> None)
         issues) assignments"
  by code_simp

lemma static_projects_unique:
  "list_all (\<lambda>(project_num, issues).
       length (filter (\<lambda>(k, v). number v = project_num) project_map) = 1) assignments"
  by code_simp

lemma static_projects_resolvable: "projects_resolvable project_map assignments"
  by code_simp

lemma static_count_total: "count_total assignments = 95"
  by code_simp

text \<open>
  Claim C10. The static tables fit together: every milestone name of an assignment tuple is a
  key of \<open>milestone_map\<close>, and every project number of \<open>assignments\<close> is the \<^verbatim>\<open>number\<close> of
  exactly one entry of \<open>project_map\<close>, whose name is a key of \<open>project_map\<close>. So the lookups
  of \<^verbatim>\<open>main\<close> succeed: whatever the external command does, \<^verbatim>\<open>main\<close> returns, with a total of
  95 tuples, and no \<^verbatim>\<open>IndexError\<close> or \<^verbatim>\<open>KeyError\<close> of a table lookup leaves it.
\<close>

theorem static_tables_are_consistent:
  "(\<forall>(project_num, issues) \<in> set assignments.
      \<forall>(issue_num, phase, milestone, date_str) \<in> set issues.
        \<exists>milestone_num. map_of milestone_map milestone = Some milestone_num)
   \<and> (\<forall>(project_num, issues) \<in> set assignments.
        \<exists>name p. filter (\<lambda>(k, v). number v = project_num) project_map = [(name, p)]
                 \<and> project_names project_map project_num = [name]
                 \<and> map_of project_map name \<noteq> None)
   \<and> (\<forall>(env :: 'w env) st. \<exists>r st'. main env st = (Inr r, st') \<and> total_issues r = 95)"
proof (intro conjI)
  show "\<forall>(project_num, issues) \<in> set assignments.
      \<forall>(issue_num, phase, milestone, date_str) \<in> set issues.
        \<exists>milestone_num. map_of milestone_map milestone = Some milestone_num"
    using static_milestones_known by (fastforce simp: list_all_iff)
next
  show "\<forall>(project_num, issues) \<in> set assignments.
        \<exists>name p. filter (\<lambda>(k, v). number v = project_num) project_map = [(name, p)]
                 \<and> project_names project_map project_num = [name]
                 \<and> map_of project_map name \<noteq> None"
  proof (intro ballI, clarify)
    fix project_num issues
    assume "(project_num, issues) \<in> set assignments"
    with static_projects_unique
    have "length (filter (\<lambda>(k, v). number v = project_num) project_map) = 1"
      by (auto simp: list_all_iff)
    then obtain kv where f: "filter (\<lambda>(k, v). number v = project_num) project_map = [kv]"
      by (cases "filter (\<lambda>(k, v). number v = project_num) project_map") auto
    obtain name p where kv: "kv = (name, p)" by (cases kv)
    have names: "project_names project_map project_num = [name]"
      by (simp add: project_names_def f kv)
    from project_names_map_of [OF names] have "map_of project_map name \<noteq> None" by auto
    with f kv names
    show "\<exists>name p. filter (\<lambda>(k, v). number v = project_num) project_map = [(name, p)]
                 \<and> project_names project_map project_num = [name]
                 \<and> map_of project_map name \<noteq> None"
      by blast
  qed
next
  show "\<forall>(env :: 'w env) st. \<exists>r st'. main env st = (Inr r, st') \<and> total_issues r = 95"
  proof (intro allI)
    fix env :: "'w env" and st :: "'w state"
    from run_main_returns [OF static_projects_resolvable] obtain r st' where
      run: "run_main env milestone_map project_map assignments st = (Inr r, st')"
      by blast
    from run_main_end [OF run] have "total_issues r = int (length (all_tuples assignments))"
      by blast
    then have "total_issues r = 95"
      using static_count_total by (simp add: count_total_all_tuples)
    with run show "\<exists>r st'. main env st = (Inr r, st') \<and> total_issues r = 95"
      by (auto simp: main_def)
  qed
qed

theorem static_tables_are_consistent_witness:
  "(\<exists>milestone_num. map_of milestone_map ''Security Fix'' = Some milestone_num)
   \<and> (\<exists>r st'. main (stub_env []) st0 = (Inr r, st') \<and> total_issues r = 95)"
proof -
  have m: "list_ex (\<lambda>(project_num, issues).
              list_ex (\<lambda>t. t = (31, ''Phase 1: Security'', ''Security Fix'', ''2025-11-07'')) issues)
            assignments"
    by code_simp
  then obtain project_num issues where
    a: "(project_num, issues) \<in> set assignments"
    and t: "(31, ''Phase 1: Security'', ''Security Fix'', ''2025-11-07'') \<in> set issues"
    by (auto simp: list_ex_iff)
  from static_tables_are_consistent a t
  have 1: "\<exists>milestone_num. map_of milestone_map ''Security Fix'' = Some milestone_num"
    by fastforce
  from static_tables_are_consistent
  have 2: "\<exists>r st'. main (stub_env []) st0 = (Inr r, st') \<and> total_issues r = 95"
    by blast
  from 1 2 show ?thesis by blast
qed

end
